theory Spec2Isabelle
  imports Main "HOL-Library.AList" "HOL-Library.Sublist"
begin

section \<open>Values and errors\<close>

text \<open>
  The adapter is TypeScript. Heights, depths and counters are JavaScript numbers that hold
  integers; they are modelled as \<open>int\<close> (the initial cursor is \<open>-1\<close>, cut-offs may be
  negative). Wall-clock readings (\<open>Date.now()\<close>, the \<open>timestamp\<close> columns, \<open>durationMs\<close>),
  console output and the metrics collector are left out of the model.

  An error thrown by the database client or by the runtime is a JavaScript object of which the
  code reads three properties: \<open>err.code\<close>, \<open>err.message\<close> and \<open>err.type\<close>. Each may be
  absent.
\<close>

record js_error =
  err_code :: "string option"
  err_message :: "string option"
  err_type :: "string option"

text \<open>\<open>s.includes(t)\<close> on strings: \<open>t\<close> occurs in \<open>s\<close> as a contiguous piece.\<close>

fun js_includes :: "string \<Rightarrow> string \<Rightarrow> bool" where
  "js_includes [] t = (t = [])"
| "js_includes (c # cs) t = (take (length t) (c # cs) = t \<or> js_includes cs t)"

text \<open>
  The test the code writes in every catch block around a table access:
  \<open>err.message?.includes('UNKNOWN_TABLE') || err.type === 'UNKNOWN_TABLE'\<close>.
\<close>

definition isUnknownTable :: "js_error \<Rightarrow> bool" where
  "isUnknownTable err =
     ((case err_message err of None \<Rightarrow> False | Some m \<Rightarrow> js_includes m ''UNKNOWN_TABLE'')
      \<or> err_type err = Some ''UNKNOWN_TABLE'')"

text \<open>The error the server answers when a statement names a table that does not exist.\<close>

definition unknown_table_error :: js_error where
  "unknown_table_error =
     \<lparr>err_code = Some ''60'', err_message = Some ''Table does not exist. (UNKNOWN_TABLE)'',
      err_type = Some ''UNKNOWN_TABLE''\<rparr>"

text \<open>
  JavaScript values, as far as \<open>JSON.stringify\<close> tells them apart. \<open>JSON.stringify\<close> throws a
  \<open>TypeError\<close> on a \<open>BigInt\<close> anywhere inside its argument; otherwise it returns the text,
  which the model keeps as the value it encodes.
\<close>

datatype jsval =
    JNumber int
  | JString string
  | JBigInt int
  | JBoolean bool
  | JNull
  | JArray "jsval list"
  | JObject "(string \<times> jsval) list"

fun has_bigint :: "jsval \<Rightarrow> bool" where
  "has_bigint (JNumber n) = False"
| "has_bigint (JString s) = False"
| "has_bigint (JBigInt n) = True"
| "has_bigint (JBoolean b) = False"
| "has_bigint JNull = False"
| "has_bigint (JArray vs) = list_ex has_bigint vs"
| "has_bigint (JObject kvs) = list_ex (\<lambda>kv. has_bigint (snd kv)) kvs"

definition bigint_type_error :: js_error where
  "bigint_type_error =
     \<lparr>err_code = None, err_message = Some ''Do not know how to serialize a BigInt'',
      err_type = None\<rparr>"

definition JSON_stringify :: "jsval \<Rightarrow> js_error + jsval" where
  "JSON_stringify v = (if has_bigint v then Inl bigint_type_error else Inr v)"

section \<open>Blocks and checkpoints (types.ts)\<close>

text \<open>
  A block reference as it exists at run time: \<open>height\<close> and \<open>hash\<close> (\<open>HashAndHeight\<close>), the
  optional \<open>parent\<close> of \<open>BlockRef\<close>, and whatever further properties the producer has put on
  the object (\<open>baseFeePerGas\<close> as a \<open>BigInt\<close>, gas fields, ...).
\<close>

record block =
  height :: int
  hash :: string
  parent :: "string option"
  extras :: "(string \<times> jsval) list"

text \<open>\<open>DatabaseState\<close>: what \<open>connect()\<close> returns and \<open>saveStatus\<close> receives.\<close>

record database_state =
  ds_height :: int
  ds_hash :: string
  ds_top :: "block list"
  ds_finalizedHeight :: "int option"

section \<open>The database server behind the client\<close>

text \<open>
  The ClickHouse client is the adapter's environment. The model keeps the contents of the
  tables the adapter touches and answers each statement from them:
  \<^item> the managed data tables, by physical name; a name without an entry is a table that does
    not exist, and a statement on it is answered with the \<open>UNKNOWN_TABLE\<close> error. A data row
    carries the height column, the hash column (empty when the table has none) and the rest of
    the row. The configured \<open>heightColumnName\<close> is taken to be the column \<open>height\<close> that
    \<open>getLatestColdBlockHeight\<close> and \<open>getBlockHashForHeight\<close> name literally (the default);
  \<^item> the live checkpoint table \<open>stateTable\<close>, the cold checkpoint table \<open>stateTable_cold\<close> and
    the registry table \<open>valid_blocks\<close>, each as the list of rows inserted so far, oldest first.
    The checkpoint tables are \<open>ReplacingMergeTree(timestamp)\<close>: read with \<open>FINAL\<close>, the row of a
    processor is the one written last;
  \<^item> \<open>ALTER TABLE ... DELETE\<close> and \<open>TRUNCATE\<close> are applied at once, as the code's comments
    expect;
  \<^item> a script of injected failures: every call of the client takes the next entry of
    \<open>pending_faults\<close>; \<open>Some e\<close> makes the call throw \<open>e\<close> without touching the tables,
    \<open>None\<close> (or an exhausted script) lets it run. This is how connection resets, time-outs and
    any other rejected promise enter the model;
  \<^item> \<open>slept\<close>, the delays in milliseconds passed to \<open>setTimeout\<close> and awaited, in order;
  \<^item> \<open>max\<close> over an empty table is \<open>0\<close> for a plain \<open>UInt64\<close> column and \<open>null\<close> when the
    server is set to return null for empty aggregates; \<open>empty_max_null\<close> says which.
\<close>

record data_row =
  row_height :: int
  row_hash :: string
  row_rest :: string

record status_row =
  sr_id :: string
  sr_height :: int
  sr_hash :: string
  sr_parent_hash :: string
  sr_hot_blocks :: jsval
  sr_finalized_height :: int

record cold_status_row =
  cr_id :: string
  cr_height :: int
  cr_hash :: string

record valid_block_row =
  vr_height :: int
  vr_hash :: string
  vr_processor_id :: string

record client_env =
  tables :: "string \<Rightarrow> data_row list option"
  status_table :: "status_row list"
  cold_status_table :: "cold_status_row list"
  valid_blocks_table :: "valid_block_row list"
  pending_faults :: "js_error option list"
  slept :: "int list"
  empty_max_null :: bool

text \<open>One call of the client: the scripted outcome first, then the statement itself.\<close>

definition client_call ::
  "(client_env \<Rightarrow> (js_error + 'a) \<times> client_env) \<Rightarrow> client_env \<Rightarrow> (js_error + 'a) \<times> client_env"
where
  "client_call stmt env =
     (case pending_faults env of
        [] \<Rightarrow> stmt env
      | None # fs \<Rightarrow> stmt (env\<lparr>pending_faults := fs\<rparr>)
      | Some e # fs \<Rightarrow> (Inl e, env\<lparr>pending_faults := fs\<rparr>))"

text \<open>A \<open>SELECT\<close> on a data table, given what it computes from the rows.\<close>

definition client_query ::
  "string \<Rightarrow> (data_row list \<Rightarrow> 'a) \<Rightarrow> client_env \<Rightarrow> (js_error + 'a) \<times> client_env"
where
  "client_query t f =
     client_call (\<lambda>env. case tables env t of
                           None \<Rightarrow> (Inl unknown_table_error, env)
                         | Some rows \<Rightarrow> (Inr (f rows), env))"

text \<open>A statement that rewrites one data table (\<open>TRUNCATE\<close>, \<open>ALTER TABLE DELETE\<close>, an insert).\<close>

definition client_command ::
  "string \<Rightarrow> (data_row list \<Rightarrow> data_row list) \<Rightarrow> client_env \<Rightarrow> (js_error + unit) \<times> client_env"
where
  "client_command t f =
     client_call (\<lambda>env. case tables env t of
                           None \<Rightarrow> (Inl unknown_table_error, env)
                         | Some rows \<Rightarrow> (Inr (), env\<lparr>tables := (tables env)(t \<mapsto> f rows)\<rparr>))"

text \<open>\<open>INSERT INTO cold SELECT * FROM hot WHERE height <= cutoff\<close>, run on the server.\<close>

definition client_copy_upto ::
  "string \<Rightarrow> string \<Rightarrow> int \<Rightarrow> client_env \<Rightarrow> (js_error + unit) \<times> client_env"
where
  "client_copy_upto coldTable hotTable cutoff =
     client_call (\<lambda>env. case (tables env coldTable, tables env hotTable) of
                           (Some cold, Some hot) \<Rightarrow>
                             (Inr (), env\<lparr>tables := (tables env)
                                (coldTable \<mapsto> cold @ filter (\<lambda>r. row_height r \<le> cutoff) hot)\<rparr>)
                         | _ \<Rightarrow> (Inl unknown_table_error, env))"

text \<open>\<open>SELECT max(height)\<close>: one row, holding the maximum, or the empty aggregate.\<close>

definition max_height_of :: "bool \<Rightarrow> data_row list \<Rightarrow> int option" where
  "max_height_of null_when_empty rows =
     (case rows of
        [] \<Rightarrow> (if null_when_empty then None else Some 0)
      | r # rs \<Rightarrow> Some (fold max (map row_height rs) (row_height r)))"

definition client_max_height :: "string \<Rightarrow> client_env \<Rightarrow> (js_error + int option) \<times> client_env" where
  "client_max_height t env = client_query t (max_height_of (empty_max_null env)) env"

text \<open>The bookkeeping tables.\<close>

definition client_insert_status :: "status_row \<Rightarrow> client_env \<Rightarrow> (js_error + unit) \<times> client_env" where
  "client_insert_status row =
     client_call (\<lambda>env. (Inr (), env\<lparr>status_table := status_table env @ [row]\<rparr>))"

definition client_insert_cold_status ::
  "cold_status_row \<Rightarrow> client_env \<Rightarrow> (js_error + unit) \<times> client_env"
where
  "client_insert_cold_status row =
     client_call (\<lambda>env. (Inr (), env\<lparr>cold_status_table := cold_status_table env @ [row]\<rparr>))"

definition client_select_cold_status ::
  "string \<Rightarrow> client_env \<Rightarrow> (js_error + cold_status_row list) \<times> client_env"
where
  "client_select_cold_status pid =
     client_call (\<lambda>env. (Inr (case filter (\<lambda>r. cr_id r = pid) (cold_status_table env) of
                                  [] \<Rightarrow> []
                                | r # rs \<Rightarrow> [last (r # rs)]), env))"

definition client_insert_valid_blocks ::
  "valid_block_row list \<Rightarrow> client_env \<Rightarrow> (js_error + unit) \<times> client_env"
where
  "client_insert_valid_blocks rows =
     client_call (\<lambda>env. (Inr (), env\<lparr>valid_blocks_table := valid_blocks_table env @ rows\<rparr>))"

definition client_delete_valid_blocks ::
  "(valid_block_row \<Rightarrow> bool) \<Rightarrow> client_env \<Rightarrow> (js_error + unit) \<times> client_env"
where
  "client_delete_valid_blocks doomed =
     client_call (\<lambda>env. (Inr (), env\<lparr>valid_blocks_table :=
                                        filter (\<lambda>r. \<not> doomed r) (valid_blocks_table env)\<rparr>))"

section \<open>ValidBlocksManager\<close>

text \<open>
  The registry object. \<open>validBlocks\<close> is a JavaScript \<open>Map<number, string>\<close>: an association
  list in insertion order, where \<open>set\<close> overwrites in place or appends (\<open>AList.update\<close>),
  \<open>get\<close> is \<open>map_of\<close>, and a loop that deletes the entries it visits is a \<open>filter\<close>.
\<close>

record valid_blocks_manager =
  vbm_processorId :: string
  finalityDepth :: int
  validBlocks :: "(int \<times> string) list"

type_synonym 'a vbm_result = "(js_error + 'a) \<times> valid_blocks_manager \<times> client_env"

definition pruneOldBlocks :: "int \<Rightarrow> valid_blocks_manager \<Rightarrow> client_env \<Rightarrow> unit vbm_result" where
  "pruneOldBlocks currentHeight m env =
     (let threshold = currentHeight - finalityDepth m;
          pruned = length (filter (\<lambda>e. fst e < threshold) (validBlocks m));
          m' = m\<lparr>validBlocks := filter (\<lambda>e. \<not> fst e < threshold) (validBlocks m)\<rparr>
      in if pruned > 0 then
           (case client_delete_valid_blocks
                   (\<lambda>r. vr_processor_id r = vbm_processorId m \<and> vr_height r < threshold) env of
              (r, env') \<Rightarrow> (r, m', env'))
         else (Inr (), m', env))"

definition addBlock :: "int \<Rightarrow> string \<Rightarrow> valid_blocks_manager \<Rightarrow> client_env \<Rightarrow> unit vbm_result" where
  "addBlock h x m env =
     (let m' = m\<lparr>validBlocks := AList.update h x (validBlocks m)\<rparr> in
      case client_insert_valid_blocks
             [\<lparr>vr_height = h, vr_hash = x, vr_processor_id = vbm_processorId m\<rparr>] env of
        (Inl e, env') \<Rightarrow> (Inl e, m', env')
      | (Inr u, env') \<Rightarrow> pruneOldBlocks h m' env')"

definition addBlocks ::
  "(int \<times> string) list \<Rightarrow> valid_blocks_manager \<Rightarrow> client_env \<Rightarrow> unit vbm_result"
where
  "addBlocks blocks m env =
     (case blocks of
        [] \<Rightarrow> (Inr (), m, env)
      | b # bs \<Rightarrow>
          (let m' = m\<lparr>validBlocks := fold (\<lambda>b al. AList.update (fst b) (snd b) al) blocks (validBlocks m)\<rparr>
           in case client_insert_valid_blocks
                     (map (\<lambda>b. \<lparr>vr_height = fst b, vr_hash = snd b,
                                vr_processor_id = vbm_processorId m\<rparr>) blocks) env of
                (Inl e, env') \<Rightarrow> (Inl e, m', env')
              | (Inr u, env') \<Rightarrow>
                  (let maxHeight = fold max (map fst bs) (fst b) in pruneOldBlocks maxHeight m' env')))"

definition handleReorg ::
  "int \<Rightarrow> (int \<times> string) list \<Rightarrow> valid_blocks_manager \<Rightarrow> client_env \<Rightarrow> unit vbm_result"
where
  "handleReorg reorgHeight newBlocks m env =
     (let m' = m\<lparr>validBlocks := filter (\<lambda>e. \<not> fst e \<ge> reorgHeight) (validBlocks m)\<rparr> in
      case client_delete_valid_blocks
             (\<lambda>r. vr_processor_id r = vbm_processorId m \<and> vr_height r \<ge> reorgHeight) env of
        (Inl e, env') \<Rightarrow> (Inl e, m', env')
      | (Inr u, env') \<Rightarrow>
          (if length newBlocks > 0 then addBlocks newBlocks m' env' else (Inr (), m', env')))"

definition getValidHashes :: "valid_blocks_manager \<Rightarrow> (int \<times> string) list" where
  "getValidHashes m = validBlocks m"

definition isValidBlock :: "valid_blocks_manager \<Rightarrow> int \<Rightarrow> string \<Rightarrow> bool" where
  "isValidBlock m h x = (map_of (validBlocks m) h = Some x)"

definition clear :: "valid_blocks_manager \<Rightarrow> client_env \<Rightarrow> unit vbm_result" where
  "clear m env =
     (let m' = m\<lparr>validBlocks := []\<rparr> in
      case client_delete_valid_blocks (\<lambda>r. vr_processor_id r = vbm_processorId m) env of
        (r, env') \<Rightarrow> (r, m', env'))"

section \<open>ClickhouseDatabase\<close>

text \<open>
  The adapter object: its configuration, its in-memory cursor and the two objects it owns, the
  client and the registry (which shares the client). The migration hooks are user code handed
  to the constructor; they are parameters of the functions that call them. A hook is modelled
  by what it returns (or throws); \<open>customMigration\<close>, which replaces the migration, receives the
  adapter and may change it. The options read only by the constructor and by table discovery
  (\<open>supportHotBlocks\<close>, \<open>tablesPath\<close>, \<open>hotSupportedTablesPath\<close>) have no field here:
  \<open>migrateableTables\<close> holds what discovery found.
\<close>

record database =
  client :: client_env
  processorId :: string
  network :: string
  hotBlocksDepth :: int
  migrateableTables :: "string list"
  autoMigrate :: bool
  migrationInterval :: int
  migrationOnFinality :: bool
  validBlocksManager :: valid_blocks_manager
  hotBlocks :: "block list"
  finalizedHeight :: int
  isAtChainTip :: bool
  blocksSinceLastMigration :: int
  lastMigrationHeight :: int

record migration_context =
  mc_currentHeight :: int
  mc_finalizedHeight :: int
  mc_hotTableRows :: int
  mc_blocksSinceLastMigration :: int
  mc_isAtChainTip :: bool

record migration_result =
  migrated :: int
  cutoffHeight :: int
  migrated_tables :: "(string \<times> int) list"

record 'db migration_hooks =
  beforeMigration :: "(migration_context \<Rightarrow> js_error + bool) option"
  afterMigration :: "(migration_result \<Rightarrow> js_error option) option"
  customMigration :: "('db \<Rightarrow> (js_error + migration_result) \<times> 'db) option"

record hot_tx_info =
  finalizedHead :: block
  baseHead :: block
  newBlocks :: "block list"

text \<open>
  An entity buffered by the store: the snake-case form of its class name, as the three
  \<open>replace\<close> calls and \<open>toLowerCase\<close> of \<open>getTableName\<close> give it, and the row
  \<open>serializeEntity\<close> makes of it.
\<close>

record entity =
  ent_snake :: string
  ent_row :: data_row

definition hotTableName :: "database \<Rightarrow> string \<Rightarrow> string" where
  "hotTableName db t = network db @ ''_hot_'' @ t"

definition coldTableName :: "database \<Rightarrow> string \<Rightarrow> string" where
  "coldTableName db t = network db @ ''_cold_'' @ t"

definition getTableName :: "database \<Rightarrow> string \<Rightarrow> string" where
  "getTableName db snakeCase =
     (let tempZone = (if isAtChainTip db then ''hot_'' else ''cold_'')
      in network db @ ''_'' @ tempZone @ snakeCase @ ''s'')"

subsection \<open>Reorg detection and the common ancestor\<close>

definition detectReorg :: "database \<Rightarrow> block list \<Rightarrow> bool" where
  "detectReorg db blocks =
     (if length (hotBlocks db) = 0 \<or> length blocks = 0 then False
      else (let currentTip = last (hotBlocks db); newBlock = hd blocks
            in height newBlock \<le> height currentTip))"

definition findCommonAncestor :: "database \<Rightarrow> block list \<Rightarrow> int" where
  "findCommonAncestor db blocks =
     (let hashToHeight = fold (\<lambda>b al. AList.update (hash b) (height b) al) (hotBlocks db) []
      in fold (\<lambda>newBlock ancestorHeight.
                 if map_of hashToHeight (hash newBlock) \<noteq> None
                 then max ancestorHeight (height newBlock) else ancestorHeight)
              blocks (finalizedHeight db))"

subsection \<open>saveStatus\<close>

text \<open>\<open>state.top.map(b => ({height: b.height, hash: b.hash}))\<close>, one object per block.\<close>

definition sanitizeBlock :: "block \<Rightarrow> jsval" where
  "sanitizeBlock b = JObject [(''height'', JNumber (height b)), (''hash'', JString (hash b))]"

definition saveStatus :: "database_state \<Rightarrow> database \<Rightarrow> (js_error + unit) \<times> database" where
  "saveStatus st db =
     (let sanitizedHotBlocks = JArray (map sanitizeBlock (ds_top st));
          parent_hash = (case ds_top st of
                           [] \<Rightarrow> []
                         | b # bs \<Rightarrow> (case parent (last (b # bs)) of None \<Rightarrow> [] | Some p \<Rightarrow> p))
      in case JSON_stringify sanitizedHotBlocks of
           Inl e \<Rightarrow> (Inl e, db)
         | Inr hot_blocks \<Rightarrow>
             (case client_insert_status
                     \<lparr>sr_id = processorId db, sr_height = ds_height st, sr_hash = ds_hash st,
                      sr_parent_hash = parent_hash, sr_hot_blocks = hot_blocks,
                      sr_finalized_height = finalizedHeight db\<rparr> (client db) of
                (r, env') \<Rightarrow> (r, db\<lparr>client := env'\<rparr>)))"

subsection \<open>flushStore\<close>

definition BATCH_SIZE :: nat where
  "BATCH_SIZE = 200000"

definition retryableCodes :: "string list" where
  "retryableCodes = [''EPIPE'', ''ECONNRESET'', ''ETIMEDOUT'', ''ECONNREFUSED'']"

definition isRetryable :: "js_error \<Rightarrow> bool" where
  "isRetryable err =
     ((case err_code err of None \<Rightarrow> False | Some c \<Rightarrow> c \<in> set retryableCodes)
      \<or> (case err_message err of None \<Rightarrow> False | Some m \<Rightarrow> js_includes m ''socket hang up''))"

text \<open>
  The loop \<open>for (let attempt = 1; attempt <= 3; attempt++)\<close> around one chunk's insert: a
  success leaves the loop, a retryable error before the third attempt sleeps \<open>500 * attempt\<close>
  milliseconds and goes round again, any other error is thrown.
\<close>

function insertChunkWithRetry ::
  "nat \<Rightarrow> string \<Rightarrow> data_row list \<Rightarrow> client_env \<Rightarrow> (js_error + unit) \<times> client_env"
where
  "insertChunkWithRetry attempt t chunk env =
     (if attempt \<le> 3 then
        (case client_command t (\<lambda>rows. rows @ chunk) env of
           (Inr u, env') \<Rightarrow> (Inr (), env')
         | (Inl err, env') \<Rightarrow>
             (if isRetryable err \<and> attempt < 3 then
                (let delay = 500 * int attempt
                 in insertChunkWithRetry (attempt + 1) t chunk (env'\<lparr>slept := slept env' @ [delay]\<rparr>))
              else (Inl err, env')))
      else (Inr (), env))"
  by pat_completeness auto
termination
  by (relation "measure (\<lambda>(attempt, t, chunk, env). 4 - attempt)") auto

text \<open>The loop over the chunks of one table: \<open>slice(i, i + BATCH_SIZE)\<close> for \<open>i = 0, BATCH_SIZE, ...\<close>\<close>

function insertChunks ::
  "string \<Rightarrow> data_row list \<Rightarrow> client_env \<Rightarrow> (js_error + unit) \<times> client_env"
where
  "insertChunks t serializedEntities env =
     (if serializedEntities = [] then (Inr (), env)
      else (case insertChunkWithRetry 1 t (take BATCH_SIZE serializedEntities) env of
              (Inl err, env') \<Rightarrow> (Inl err, env')
            | (Inr u, env') \<Rightarrow> insertChunks t (drop BATCH_SIZE serializedEntities) env'))"
  by pat_completeness auto
termination
  by (relation "measure (\<lambda>(t, rows, env). length rows)") (auto simp: BATCH_SIZE_def)

definition groupByTable :: "database \<Rightarrow> entity list \<Rightarrow> (string \<times> entity list) list" where
  "groupByTable db inserts =
     fold (\<lambda>e byTable.
             (let tableName = getTableName db (ent_snake e);
                  sofar = (case map_of byTable tableName of None \<Rightarrow> [] | Some es \<Rightarrow> es)
              in AList.update tableName (sofar @ [e]) byTable))
          inserts []"

text \<open>
  \<open>Promise.all\<close> starts the insert of every table; the model runs them one after the other in
  the order of the map. A table whose insert throws does not stop the others, and the error
  \<open>flushStore\<close> throws is that of the first table that failed.
\<close>

fun flushTables :: "(string \<times> entity list) list \<Rightarrow> client_env \<Rightarrow> js_error option \<times> client_env" where
  "flushTables [] env = (None, env)"
| "flushTables ((t, entities) # rest) env =
     (case (if entities = [] then (Inr (), env) else insertChunks t (map ent_row entities) env) of
        (r, env') \<Rightarrow>
          (case flushTables rest env' of
             (r', env'') \<Rightarrow> ((case r of Inl err \<Rightarrow> Some err | Inr u \<Rightarrow> r'), env'')))"

definition flushStore :: "entity list \<Rightarrow> database \<Rightarrow> (js_error + unit) \<times> database" where
  "flushStore inserts db =
     (if length inserts = 0 then (Inr (), db)
      else (case flushTables (groupByTable db inserts) (client db) of
              (None, env') \<Rightarrow> (Inr (), db\<lparr>client := env'\<rparr>)
            | (Some err, env') \<Rightarrow> (Inl err, db\<lparr>client := env'\<rparr>)))"

subsection \<open>Hot to cold migration\<close>

definition updateColdStatus :: "int \<Rightarrow> string \<Rightarrow> database \<Rightarrow> (js_error + unit) \<times> database" where
  "updateColdStatus h x db =
     (case client_insert_cold_status \<lparr>cr_id = processorId db, cr_height = h, cr_hash = x\<rparr>
             (client db) of
        (r, env') \<Rightarrow> (r, db\<lparr>client := env'\<rparr>))"

text \<open>
  \<open>SELECT hash FROM t WHERE height = h LIMIT 1\<close>, as \<open>getBlockHashForHeight\<close> reads it: the hash
  of the first row found when it is a non-empty string; every error is swallowed.
\<close>

definition selectHashAt :: "string \<Rightarrow> int \<Rightarrow> client_env \<Rightarrow> string option \<times> client_env" where
  "selectHashAt t h env =
     (case client_query t (\<lambda>rows. take 1 (filter (\<lambda>r. row_height r = h) rows)) env of
        (Inl err, env') \<Rightarrow> (None, env')
      | (Inr rows, env') \<Rightarrow>
          ((case rows of [] \<Rightarrow> None
                       | r # rs \<Rightarrow> (if row_hash r \<noteq> [] then Some (row_hash r) else None)), env'))"

definition getBlockHashForHeight :: "int \<Rightarrow> database \<Rightarrow> string option \<times> database" where
  "getBlockHashForHeight h db =
     (case find (\<lambda>b. height b = h) (hotBlocks db) of
        Some hotBlock \<Rightarrow> (Some (hash hotBlock), db)
      | None \<Rightarrow>
          (let validHashes = getValidHashes (validBlocksManager db);
               validHash = map_of validHashes h
           in if validHash \<noteq> None \<and> validHash \<noteq> Some [] then (validHash, db)
              else (case migrateableTables db of
                      [] \<Rightarrow> (None, db)
                    | representativeTable # others \<Rightarrow>
                        (case selectHashAt (coldTableName db representativeTable) h (client db) of
                           (Some x, env1) \<Rightarrow> (Some x, db\<lparr>client := env1\<rparr>)
                         | (None, env1) \<Rightarrow>
                             (case selectHashAt (hotTableName db representativeTable) h env1 of
                                (r, env2) \<Rightarrow> (r, db\<lparr>client := env2\<rparr>))))))"

text \<open>
  One round of the loop over the managed tables in \<open>migrateHotToCold\<close>: count, copy, delete.
  An error at any of the three statements ends the round for this table (an unknown table
  silently, any other error with a line on the console); the loop goes on with the next table.
  The result is the number of rows to report for the table, if any.
\<close>

definition migrateTable :: "database \<Rightarrow> int \<Rightarrow> string \<Rightarrow> client_env \<Rightarrow> int option \<times> client_env" where
  "migrateTable db cutoff t env =
     (let hotTable = hotTableName db t; coldTable = coldTableName db t in
      case client_query hotTable
             (\<lambda>rows. int (length (filter (\<lambda>r. row_height r \<le> cutoff) rows))) env of
        (Inl err, env1) \<Rightarrow> (None, env1)
      | (Inr rowsToMigrate, env1) \<Rightarrow>
          (if rowsToMigrate = 0 then (None, env1)
           else (case client_copy_upto coldTable hotTable cutoff env1 of
                   (Inl err, env2) \<Rightarrow> (None, env2)
                 | (Inr u, env2) \<Rightarrow>
                     (case client_command hotTable
                             (filter (\<lambda>r. \<not> row_height r \<le> cutoff)) env2 of
                        (Inl err, env3) \<Rightarrow> (None, env3)
                      | (Inr u', env3) \<Rightarrow> (Some rowsToMigrate, env3)))))"

fun migrateTables ::
  "database \<Rightarrow> int \<Rightarrow> string list \<Rightarrow> int \<times> (string \<times> int) list \<Rightarrow> client_env
   \<Rightarrow> (int \<times> (string \<times> int) list) \<times> client_env"
where
  "migrateTables db cutoff [] acc env = (acc, env)"
| "migrateTables db cutoff (t # ts) (totalMigrated, tableResults) env =
     (case migrateTable db cutoff t env of
        (None, env') \<Rightarrow> migrateTables db cutoff ts (totalMigrated, tableResults) env'
      | (Some rowsToMigrate, env') \<Rightarrow>
          migrateTables db cutoff ts
            (totalMigrated + rowsToMigrate, tableResults @ [(t, rowsToMigrate)]) env')"

definition noMigration :: "int \<Rightarrow> migration_result" where
  "noMigration cutoff = \<lparr>migrated = 0, cutoffHeight = cutoff, migrated_tables = []\<rparr>"

text \<open>
  The part of \<open>migrateHotToCold\<close> after the loop over the tables: the cut-off is recorded, its
  hash is looked up, and the cold checkpoint is written when the hash is a non-empty string.
\<close>

definition finishMigration ::
  "int \<Rightarrow> int \<times> (string \<times> int) list \<Rightarrow> database \<Rightarrow> (js_error + migration_result) \<times> database"
where
  "finishMigration cutoff acc db =
     (let db2 = db\<lparr>lastMigrationHeight := cutoff\<rparr>;
          outcome = \<lparr>migrated = fst acc, cutoffHeight = cutoff, migrated_tables = snd acc\<rparr>
      in case getBlockHashForHeight cutoff db2 of
           (None, db3) \<Rightarrow> (Inr outcome, db3)
         | (Some cutoffHash, db3) \<Rightarrow>
             (if cutoffHash = [] then (Inr outcome, db3)
              else (case updateColdStatus cutoff cutoffHash db3 of
                      (Inl err, db4) \<Rightarrow> (Inl err, db4)
                    | (Inr u, db4) \<Rightarrow> (Inr outcome, db4))))"

definition migrateHotToCold :: "database \<Rightarrow> (js_error + migration_result) \<times> database" where
  "migrateHotToCold db =
     (if \<not> isAtChainTip db then (Inr (noMigration (- 1)), db)
      else case migrateableTables db of
        [] \<Rightarrow> (Inr (noMigration (- 1)), db)
      | first # others \<Rightarrow>
          (case client_max_height (hotTableName db first) (client db) of
             (Inl err, env1) \<Rightarrow>
               (if isUnknownTable err then (Inr (noMigration (- 1)), db\<lparr>client := env1\<rparr>)
                else (Inl err, db\<lparr>client := env1\<rparr>))
           | (Inr None, env1) \<Rightarrow> (Inr (noMigration (- 1)), db\<lparr>client := env1\<rparr>)
           | (Inr (Some maxHeight), env1) \<Rightarrow>
               (if maxHeight = 0 \<or> maxHeight \<le> 0
                then (Inr (noMigration (- 1)), db\<lparr>client := env1\<rparr>)
                else
                  (let cutoff = maxHeight - hotBlocksDepth db in
                   if cutoff \<le> lastMigrationHeight db
                   then (Inr (noMigration cutoff), db\<lparr>client := env1\<rparr>)
                   else
                     (case migrateTables db cutoff (migrateableTables db) (0, []) env1 of
                        (acc, env2) \<Rightarrow> finishMigration cutoff acc (db\<lparr>client := env2\<rparr>))))))"

text \<open>
  The rows of the first hot table, as \<open>performMigration\<close> estimates them for the hooks; an error
  leaves the estimate at \<open>0\<close>.
\<close>

definition estimateHotTableRows :: "database \<Rightarrow> int \<times> client_env" where
  "estimateHotTableRows db =
     (case migrateableTables db of
        [] \<Rightarrow> (0, client db)
      | first # others \<Rightarrow>
          (case client_query (hotTableName db first) (\<lambda>rows. int (length rows)) (client db) of
             (Inl err, env') \<Rightarrow> (0, env')
           | (Inr cnt, env') \<Rightarrow> (cnt, env')))"

definition migrationContext :: "database \<Rightarrow> int \<Rightarrow> migration_context" where
  "migrationContext db hotTableRows =
     \<lparr>mc_currentHeight =
        (case hotBlocks db of
           [] \<Rightarrow> finalizedHeight db
         | b # bs \<Rightarrow> (if height (last (b # bs)) \<noteq> 0 then height (last (b # bs))
                      else finalizedHeight db)),
      mc_finalizedHeight = finalizedHeight db,
      mc_hotTableRows = hotTableRows,
      mc_blocksSinceLastMigration = blocksSinceLastMigration db,
      mc_isAtChainTip = isAtChainTip db\<rparr>"

text \<open>
  The three places where \<open>performMigration\<close> turns to the hooks: the \<open>beforeMigration\<close> hook
  (without one the migration goes ahead), the migration itself (the \<open>customMigration\<close> hook, or
  \<open>migrateHotToCold\<close>), and the \<open>afterMigration\<close> hook.
\<close>

definition askBeforeMigration :: "'db migration_hooks \<Rightarrow> migration_context \<Rightarrow> js_error + bool" where
  "askBeforeMigration hooks ctx =
     (case beforeMigration hooks of None \<Rightarrow> Inr True | Some hook \<Rightarrow> hook ctx)"

definition executeMigration ::
  "database migration_hooks \<Rightarrow> database \<Rightarrow> (js_error + migration_result) \<times> database"
where
  "executeMigration hooks db =
     (case customMigration hooks of
        Some custom \<Rightarrow> custom db
      | None \<Rightarrow> migrateHotToCold db)"

definition tellAfterMigration :: "'db migration_hooks \<Rightarrow> migration_result \<Rightarrow> js_error option" where
  "tellAfterMigration hooks result =
     (case afterMigration hooks of None \<Rightarrow> None | Some hook \<Rightarrow> hook result)"

definition performMigration ::
  "database migration_hooks \<Rightarrow> database \<Rightarrow> (js_error + unit) \<times> database"
where
  "performMigration hooks db =
     (case estimateHotTableRows db of
        (hotTableRows, env1) \<Rightarrow>
          (let db1 = db\<lparr>client := env1\<rparr>;
               ctx = migrationContext db1 hotTableRows
           in case askBeforeMigration hooks ctx of
                Inl err \<Rightarrow> (Inl err, db1)
              | Inr shouldContinue \<Rightarrow>
                  (if \<not> shouldContinue then (Inr (), db1)
                   else (case executeMigration hooks db1 of
                           (Inl err, db2) \<Rightarrow> (Inl err, db2)
                         | (Inr result, db2) \<Rightarrow>
                             (case tellAfterMigration hooks result of
                                Some err \<Rightarrow> (Inl err, db2)
                              | None \<Rightarrow> (Inr (), db2\<lparr>blocksSinceLastMigration := 0\<rparr>))))))"

subsection \<open>transactHot\<close>

text \<open>\<open>xs.slice(start)\<close>: a negative start counts from the end.\<close>

definition js_slice_from :: "int \<Rightarrow> 'a list \<Rightarrow> 'a list" where
  "js_slice_from start xs =
     (let n = int (length xs);
          k = (if start < 0 then max (n + start) 0 else min start n)
      in drop (nat k) xs)"

text \<open>
  The body of \<open>for (const block of info.newBlocks)\<close>. The user's callback is modelled by the
  entities it buffers in the fresh store for the block, or the error it throws.
\<close>

definition processHotBlock ::
  "(block \<Rightarrow> js_error + entity list) \<Rightarrow> block \<Rightarrow> database \<Rightarrow> (js_error + unit) \<times> database"
where
  "processHotBlock cb b db =
     (case cb b of
        Inl err \<Rightarrow> (Inl err, db)
      | Inr inserts \<Rightarrow>
          (case flushStore inserts db of
             (Inl err, db1) \<Rightarrow> (Inl err, db1)
           | (Inr u, db1) \<Rightarrow>
               (case (if \<not> isValidBlock (validBlocksManager db1) (height b) (hash b)
                      then addBlock (height b) (hash b) (validBlocksManager db1) (client db1)
                      else (Inr (), validBlocksManager db1, client db1)) of
                  (Inl err, m', env') \<Rightarrow>
                    (Inl err, db1\<lparr>client := env', validBlocksManager := m'\<rparr>)
                | (Inr u', m', env') \<Rightarrow>
                    (Inr (), db1\<lparr>client := env', validBlocksManager := m',
                                 hotBlocks := hotBlocks db1 @ [b]\<rparr>))))"

fun processHotBlocks ::
  "(block \<Rightarrow> js_error + entity list) \<Rightarrow> block list \<Rightarrow> database \<Rightarrow> (js_error + unit) \<times> database"
where
  "processHotBlocks cb [] db = (Inr (), db)"
| "processHotBlocks cb (b # bs) db =
     (case processHotBlock cb b db of
        (Inl err, db') \<Rightarrow> (Inl err, db')
      | (Inr u, db') \<Rightarrow> processHotBlocks cb bs db')"

text \<open>The stages of \<open>transactHot\<close>, in the order of the source.\<close>

definition advanceFinality :: "hot_tx_info \<Rightarrow> database \<Rightarrow> database" where
  "advanceFinality info db =
     (if height (finalizedHead info) > finalizedHeight db
      then db\<lparr>finalizedHeight := height (finalizedHead info),
              hotBlocks := filter (\<lambda>b. height b > height (finalizedHead info)) (hotBlocks db)\<rparr>
      else db)"

definition executeReorg :: "hot_tx_info \<Rightarrow> database \<Rightarrow> (js_error + unit) \<times> database" where
  "executeReorg info db =
     (let rollbackHeight = findCommonAncestor db (newBlocks info) in
      case handleReorg (rollbackHeight + 1) (map (\<lambda>b. (height b, hash b)) (newBlocks info))
             (validBlocksManager db) (client db) of
        (Inl err, m', env') \<Rightarrow> (Inl err, db\<lparr>client := env', validBlocksManager := m'\<rparr>)
      | (Inr u, m', env') \<Rightarrow>
          (Inr (), db\<lparr>client := env', validBlocksManager := m',
                      hotBlocks := filter (\<lambda>b. height b \<le> rollbackHeight) (hotBlocks db)\<rparr>))"

definition limitHotBlocks :: "database \<Rightarrow> database" where
  "limitHotBlocks db =
     (if int (length (hotBlocks db)) > hotBlocksDepth db
      then db\<lparr>hotBlocks := js_slice_from (- hotBlocksDepth db) (hotBlocks db)\<rparr>
      else db)"

definition saveHotStatus :: "hot_tx_info \<Rightarrow> database \<Rightarrow> (js_error + unit) \<times> database" where
  "saveHotStatus info db =
     (if length (newBlocks info) > 0 then
        (let lastBlock = last (newBlocks info)
         in saveStatus \<lparr>ds_height = height lastBlock, ds_hash = hash lastBlock,
                         ds_top = hotBlocks db, ds_finalizedHeight = None\<rparr> db)
      else (Inr (), db))"

definition autoMigration ::
  "database migration_hooks \<Rightarrow> hot_tx_info \<Rightarrow> int \<Rightarrow> database \<Rightarrow> (js_error + unit) \<times> database"
where
  "autoMigration hooks info previousFinalizedHeight db =
     (if autoMigrate db \<and> isAtChainTip db then
        (let db' = db\<lparr>blocksSinceLastMigration :=
                         blocksSinceLastMigration db + int (length (newBlocks info))\<rparr>;
             shouldMigrate = (if migrationOnFinality db'
                              then finalizedHeight db' > previousFinalizedHeight
                              else blocksSinceLastMigration db' \<ge> migrationInterval db')
         in if shouldMigrate then performMigration hooks db' else (Inr (), db'))
      else (Inr (), db))"

definition transactHot ::
  "database migration_hooks \<Rightarrow> (block \<Rightarrow> js_error + entity list) \<Rightarrow> hot_tx_info \<Rightarrow> database
   \<Rightarrow> (js_error + unit) \<times> database"
where
  "transactHot hooks cb info db =
     (let previousFinalizedHeight = finalizedHeight db;
          db1 = advanceFinality info db;
          reorgDetected = detectReorg db1 (newBlocks info)
      in case (if reorgDetected then executeReorg info db1 else (Inr (), db1)) of
           (Inl err, db2) \<Rightarrow> (Inl err, db2)
         | (Inr u, db2) \<Rightarrow>
             (case processHotBlocks cb (newBlocks info) db2 of
                (Inl err, db3) \<Rightarrow> (Inl err, db3)
              | (Inr u', db3) \<Rightarrow>
                  (case saveHotStatus info (limitHotBlocks db3) of
                     (Inl err, db4) \<Rightarrow> (Inl err, db4)
                   | (Inr u'', db4) \<Rightarrow> autoMigration hooks info previousFinalizedHeight db4)))"

subsection \<open>The stale-restart reconciler\<close>

definition getColdStatus :: "database \<Rightarrow> (js_error + (int \<times> string) option) \<times> client_env" where
  "getColdStatus db =
     (case client_select_cold_status (processorId db) (client db) of
        (Inl err, env') \<Rightarrow> (if isUnknownTable err then (Inr None, env') else (Inl err, env'))
      | (Inr rows, env') \<Rightarrow>
          ((case rows of [] \<Rightarrow> Inr None
                       | r # rs \<Rightarrow> Inr (Some (cr_height r, cr_hash r))), env'))"

text \<open>
  \<open>getLatestColdBlockHeight\<close>: the largest \<open>max(height)\<close> over the cold tables, starting from
  \<open>-1\<close>; a table whose query throws, or answers \<open>null\<close>, is passed over.
\<close>

fun latestColdLoop :: "database \<Rightarrow> string list \<Rightarrow> int \<Rightarrow> client_env \<Rightarrow> int \<times> client_env" where
  "latestColdLoop db [] maxHeight env = (maxHeight, env)"
| "latestColdLoop db (t # ts) maxHeight env =
     (case client_max_height (coldTableName db t) env of
        (Inr (Some h), env') \<Rightarrow> latestColdLoop db ts (if h > maxHeight then h else maxHeight) env'
      | (Inr None, env') \<Rightarrow> latestColdLoop db ts maxHeight env'
      | (Inl err, env') \<Rightarrow> latestColdLoop db ts maxHeight env')"

definition getLatestColdBlockHeight :: "database \<Rightarrow> client_env \<Rightarrow> int \<times> client_env" where
  "getLatestColdBlockHeight db env = latestColdLoop db (migrateableTables db) (- 1) env"

text \<open>
  One round of the loop of \<open>clearAllHotTables\<close>: count the rows, leave an empty table alone,
  truncate any other. Both catch branches go on with the next table.
\<close>

definition clearHotTable :: "database \<Rightarrow> string \<Rightarrow> client_env \<Rightarrow> client_env" where
  "clearHotTable db t env =
     (case client_query (hotTableName db t) (\<lambda>rows. int (length rows)) env of
        (Inl err, env1) \<Rightarrow> env1
      | (Inr rowsToDelete, env1) \<Rightarrow>
          (if rowsToDelete = 0 then env1
           else (case client_command (hotTableName db t) (\<lambda>rows. []) env1 of
                   (r, env2) \<Rightarrow> env2)))"

fun clearHotTables :: "database \<Rightarrow> string list \<Rightarrow> client_env \<Rightarrow> client_env" where
  "clearHotTables db [] env = env"
| "clearHotTables db (t # ts) env = clearHotTables db ts (clearHotTable db t env)"

definition clearAllHotTables :: "database \<Rightarrow> database" where
  "clearAllHotTables db = db\<lparr>client := clearHotTables db (migrateableTables db) (client db)\<rparr>"

text \<open>
  The first step of \<open>detectAndRollbackStaleHotBlocks\<close>: the cold checkpoint \<open>(coldHeight,
  coldHash)\<close>, read from the cold status or, when there is none, from the cold tables with an
  empty hash.
\<close>

definition coldCheckpoint :: "database \<Rightarrow> (js_error + int \<times> string) \<times> database" where
  "coldCheckpoint db =
     (case getColdStatus db of
        (Inl err, env1) \<Rightarrow> (Inl err, db\<lparr>client := env1\<rparr>)
      | (Inr (Some coldStatus), env1) \<Rightarrow> (Inr coldStatus, db\<lparr>client := env1\<rparr>)
      | (Inr None, env1) \<Rightarrow>
          (case getLatestColdBlockHeight db env1 of
             (coldHeight, env2) \<Rightarrow> (Inr (coldHeight, []), db\<lparr>client := env2\<rparr>)))"

definition detectAndRollbackStaleHotBlocks ::
  "database_state \<Rightarrow> database \<Rightarrow> (js_error + database_state option) \<times> database"
where
  "detectAndRollbackStaleHotBlocks st db =
     (let hotBlockCount = length (ds_top st);
          lastIndexedHeight = ds_height st
      in case coldCheckpoint db of
           (Inl err, db1) \<Rightarrow> (Inl err, db1)
         | (Inr (coldHeight, coldHash), db1) \<Rightarrow>
             (let hasHotBlocks = hotBlockCount > 0;
                  heightBeyondCold = (lastIndexedHeight > coldHeight \<and> coldHeight \<ge> 0)
              in if \<not> hasHotBlocks \<and> \<not> heightBeyondCold then (Inr None, db1)
                 else
                   (case clear (validBlocksManager db1) (client db1) of
                      (Inl err, m', env') \<Rightarrow>
                        (Inl err, db1\<lparr>client := env', validBlocksManager := m'\<rparr>)
                    | (Inr u, m', env') \<Rightarrow>
                        (let db2 = clearAllHotTables (db1\<lparr>client := env', validBlocksManager := m'\<rparr>);
                             newState = \<lparr>ds_height = coldHeight, ds_hash = coldHash, ds_top = [],
                                         ds_finalizedHeight = Some coldHeight\<rparr>
                         in case saveStatus newState db2 of
                              (Inl err, db3) \<Rightarrow> (Inl err, db3)
                            | (Inr u', db3) \<Rightarrow> (Inr (Some newState), db3)))))"

section \<open>The specification's words, and inputs for the examples\<close>

text \<open>
  The specification's common ancestor: the heights, not below the finalized height, of the
  blocks of the new list whose hash is also the hash of a block of the hot chain. Its largest
  element is what the specification calls the ancestor.
\<close>

definition common_heights :: "database \<Rightarrow> block list \<Rightarrow> int list" where
  "common_heights db blocks =
     [height nb. nb \<leftarrow> blocks, hash nb \<in> hash ` set (hotBlocks db), finalizedHeight db \<le> height nb]"

text \<open>A server without data tables, nothing written yet, no failure pending.\<close>

definition fresh_env :: client_env where
  "fresh_env =
     \<lparr>tables = (\<lambda>t. None), status_table = [], cold_status_table = [], valid_blocks_table = [],
      pending_faults = [], slept = [], empty_max_null = False\<rparr>"

text \<open>A registry with finality depth 1 that holds block 5.\<close>

definition registry_5 :: valid_blocks_manager where
  "registry_5 = \<lparr>vbm_processorId = ''default'', finalityDepth = 1, validBlocks = [(5, ''0xa'')]\<rparr>"

definition epipe_error :: js_error where
  "epipe_error = \<lparr>err_code = Some ''EPIPE'', err_message = Some ''write EPIPE'', err_type = None\<rparr>"

definition hang_up_error :: js_error where
  "hang_up_error = \<lparr>err_code = None, err_message = Some ''socket hang up'', err_type = None\<rparr>"

definition transfer_row :: data_row where
  "transfer_row = \<lparr>row_height = 7, row_hash = ''0xc'', row_rest = ''transfer''\<rparr>"

text \<open>A server that has the hot table of the transfers, empty, and a script of failures.\<close>

definition flaky_env :: "js_error option list \<Rightarrow> client_env" where
  "flaky_env script =
     fresh_env\<lparr>tables := (\<lambda>t. None)(''ethereum_hot_transfers'' \<mapsto> []), pending_faults := script\<rparr>"

text \<open>
  An adapter at the chain tip with one managed table, \<open>transfers\<close>, whose hot table holds the
  given rows and whose cold table is empty; hot depth 10, nothing migrated yet.
\<close>

definition tip_db :: "data_row list \<Rightarrow> database" where
  "tip_db hot_rows =
     \<lparr>client = fresh_env\<lparr>tables := (\<lambda>t. None)(''ethereum_hot_transfers'' \<mapsto> hot_rows,
                                                  ''ethereum_cold_transfers'' \<mapsto> [])\<rparr>,
      processorId = ''default'', network = ''ethereum'', hotBlocksDepth = 10,
      migrateableTables = [''transfers''], autoMigrate = True, migrationInterval = 30,
      migrationOnFinality = False,
      validBlocksManager = \<lparr>vbm_processorId = ''default'', finalityDepth = 10, validBlocks = []\<rparr>,
      hotBlocks = [], finalizedHeight = - 1, isAtChainTip = True,
      blocksSinceLastMigration = 0, lastMigrationHeight = - 1\<rparr>"

text \<open>A table map in which every table of the given names that exists has been emptied.\<close>

definition truncated :: "string set \<Rightarrow> (string \<Rightarrow> data_row list option) \<Rightarrow> string \<Rightarrow> data_row list option" where
  "truncated names tbl = (\<lambda>t. if t \<in> names then map_option (\<lambda>rows. []) (tbl t) else tbl t)"

text \<open>
  What a hot batch without blocks must leave alone: the rows of the live checkpoint table and
  of the registry table, the registry object and the hot chain.
\<close>

definition kept_env :: "client_env \<Rightarrow> status_row list \<times> valid_block_row list" where
  "kept_env env = (status_table env, valid_blocks_table env)"

definition kept :: "database \<Rightarrow>
    (status_row list \<times> valid_block_row list) \<times> valid_blocks_manager \<times> block list" where
  "kept db = (kept_env (client db), validBlocksManager db, hotBlocks db)"

text \<open>Rows of the transfers table: one of the genesis block, one at height 100, one at height 120.\<close>

definition genesis_row :: data_row where
  "genesis_row = \<lparr>row_height = 0, row_hash = ''0xg'', row_rest = ''mint''\<rparr>"

definition old_row :: data_row where
  "old_row = \<lparr>row_height = 100, row_hash = ''0x64'', row_rest = ''transfer''\<rparr>"

definition new_row :: data_row where
  "new_row = \<lparr>row_height = 120, row_hash = ''0x78'', row_rest = ''transfer''\<rparr>"

text \<open>
  Two start-ups. \<open>plain_db\<close> is an adapter without managed tables on a server without a cold
  checkpoint, whose live checkpoint \<open>live_5\<close> stands at block 5 with no hot blocks.
  \<open>stale_db\<close> is the specification's stale restart: the live checkpoint \<open>live_stale\<close> stands at
  block 10050 with hot blocks and finalized height 10040, the cold checkpoint at block 10000;
  the registry table also holds a row of another processor.
\<close>

definition plain_db :: database where
  "plain_db = (tip_db [])\<lparr>client := fresh_env, migrateableTables := [], finalizedHeight := 5,
                            isAtChainTip := False\<rparr>"

definition live_5 :: database_state where
  "live_5 = \<lparr>ds_height = 5, ds_hash = ''0x5'', ds_top = [], ds_finalizedHeight = Some 5\<rparr>"

definition block_10049 :: block where
  "block_10049 = \<lparr>height = 10049, hash = ''0x2741'', parent = None, extras = []\<rparr>"

definition block_10050 :: block where
  "block_10050 = \<lparr>height = 10050, hash = ''0x2742'', parent = Some ''0x2741'',
                   extras = [(''baseFeePerGas'', JBigInt 7)]\<rparr>"

definition stale_row :: data_row where
  "stale_row = \<lparr>row_height = 10050, row_hash = ''0x2742'', row_rest = ''transfer''\<rparr>"

definition stale_db :: database where
  "stale_db =
     (tip_db [stale_row])
       \<lparr>client := (client (tip_db [stale_row]))
           \<lparr>cold_status_table := [\<lparr>cr_id = ''default'', cr_height = 10000, cr_hash = ''0x2710''\<rparr>],
            valid_blocks_table :=
              [\<lparr>vr_height = 10050, vr_hash = ''0x2742'', vr_processor_id = ''default''\<rparr>,
               \<lparr>vr_height = 77, vr_hash = ''0x4d'', vr_processor_id = ''other''\<rparr>]\<rparr>,
        validBlocksManager := \<lparr>vbm_processorId = ''default'', finalityDepth = 10,
                               validBlocks = [(10050, ''0x2742'')]\<rparr>,
        hotBlocks := [block_10049, block_10050],
        finalizedHeight := 10040,
        isAtChainTip := False\<rparr>"

definition live_stale :: database_state where
  "live_stale = \<lparr>ds_height = 10050, ds_hash = ''0x2742'', ds_top = [block_10049, block_10050],
                  ds_finalizedHeight = Some 10040\<rparr>"

text \<open>
  Hooks: none at all, and a \<open>beforeMigration\<close> hook that always answers \<open>false\<close>. \<open>due_db\<close> is
  an adapter at the tip whose counter has reached the migration interval of 30, with two hot
  blocks and two rows in its hot table; \<open>empty_batch\<close> is a hot batch that brings no block and
  moves finality to block 10049.
\<close>

definition no_hooks :: "database migration_hooks" where
  "no_hooks = \<lparr>beforeMigration = None, afterMigration = None, customMigration = None\<rparr>"

definition veto_hooks :: "database migration_hooks" where
  "veto_hooks = \<lparr>beforeMigration = Some (\<lambda>ctx. Inr False), afterMigration = None,
                  customMigration = None\<rparr>"

definition due_db :: database where
  "due_db = (tip_db [old_row, new_row])
              \<lparr>hotBlocks := [block_10049, block_10050], finalizedHeight := 10040,
               blocksSinceLastMigration := 30\<rparr>"

definition empty_batch :: hot_tx_info where
  "empty_batch = \<lparr>finalizedHead = block_10049, baseHead = block_10050, newBlocks = []\<rparr>"

section \<open>Facts about the client\<close>

declare insertChunkWithRetry.simps [simp del]

lemma client_call_fault:
  "pending_faults env = Some e # fs \<Longrightarrow> client_call stmt env = (Inl e, env\<lparr>pending_faults := fs\<rparr>)"
  by (simp add: client_call_def)

lemma client_call_run:
  "pending_faults env = [] \<or> hd (pending_faults env) = None \<Longrightarrow>
   client_call stmt env = stmt (env\<lparr>pending_faults := tl (pending_faults env)\<rparr>)"
  by (cases env) (auto simp: client_call_def split: list.splits option.splits)

lemma fold_max_Max: "fold max xs (a::int) = Max (insert a (set xs))"
  using Max.set_eq_fold[of a xs] by simp

lemma update_absent: "k \<notin> fst ` set al \<Longrightarrow> AList.update k v al = al @ [(k, v)]"
  by (induction al) auto

lemma client_call_nofault: "pending_faults env = [] \<Longrightarrow> client_call stmt env = stmt env"
  by (simp add: client_call_def)

lemma client_query_nofault:
  "pending_faults env = [] \<Longrightarrow>
   client_query t f env =
     ((case tables env t of None \<Rightarrow> Inl unknown_table_error | Some rows \<Rightarrow> Inr (f rows)), env)"
  by (simp add: client_query_def client_call_nofault split: option.splits)

lemma client_command_nofault:
  "pending_faults env = [] \<Longrightarrow>
   client_command t f env =
     (case tables env t of
        None \<Rightarrow> (Inl unknown_table_error, env)
      | Some rows \<Rightarrow> (Inr (), env\<lparr>tables := (tables env)(t \<mapsto> f rows)\<rparr>))"
  by (simp add: client_command_def client_call_nofault split: option.splits)

lemma max_height_of_rows:
  "max_height_of b rows =
     (if rows = [] then (if b then None else Some 0) else Some (Max (row_height ` set rows)))"
  by (cases rows) (simp_all add: max_height_of_def fold_max_Max)

lemma client_max_height_run:
  assumes "pending_faults env = [] \<or> hd (pending_faults env) = None"
  shows "client_max_height t env =
           ((case tables env t of
               None \<Rightarrow> Inl unknown_table_error
             | Some rows \<Rightarrow> Inr (max_height_of (empty_max_null env) rows)),
            env\<lparr>pending_faults := tl (pending_faults env)\<rparr>)"
  using assms
  by (auto simp: client_max_height_def client_query_def client_call_run split: option.splits)

lemma client_max_height_fault:
  assumes "pending_faults env = Some e # fs"
  shows "client_max_height t env = (Inl e, env\<lparr>pending_faults := fs\<rparr>)"
  using assms by (simp add: client_max_height_def client_query_def client_call_fault)

lemma isUnknownTable_unknown_table_error: "isUnknownTable unknown_table_error"
  by (simp add: isUnknownTable_def unknown_table_error_def)

lemma client_call_kept:
  assumes "\<And>e r e'. stmt e = (r, e') \<Longrightarrow> kept_env e' = kept_env e"
      and "client_call stmt env = (r, env')"
  shows "kept_env env' = kept_env env"
proof (cases "pending_faults env")
  case Nil
  then show ?thesis using assms by (simp add: client_call_def)
next
  case (Cons f fs)
  show ?thesis
  proof (cases f)
    case None
    then have "stmt (env\<lparr>pending_faults := fs\<rparr>) = (r, env')"
      using assms(2) Cons by (simp add: client_call_def)
    from assms(1)[OF this] show ?thesis by (simp add: kept_env_def)
  next
    case (Some e)
    then show ?thesis using assms(2) Cons by (auto simp: client_call_def kept_env_def)
  qed
qed

lemma client_query_kept: "client_query t f env = (r, env') \<Longrightarrow> kept_env env' = kept_env env"
  unfolding client_query_def
  by (erule client_call_kept[rotated]) (auto split: option.splits)

lemma client_command_kept: "client_command t f env = (r, env') \<Longrightarrow> kept_env env' = kept_env env"
  unfolding client_command_def
  by (erule client_call_kept[rotated]) (auto simp: kept_env_def split: option.splits)

lemma client_copy_upto_kept:
  "client_copy_upto c h k env = (r, env') \<Longrightarrow> kept_env env' = kept_env env"
  unfolding client_copy_upto_def
  by (erule client_call_kept[rotated]) (auto simp: kept_env_def split: option.splits)

lemma client_max_height_kept:
  "client_max_height t env = (r, env') \<Longrightarrow> kept_env env' = kept_env env"
  unfolding client_max_height_def by (rule client_query_kept)

lemma client_insert_cold_status_kept:
  "client_insert_cold_status row env = (r, env') \<Longrightarrow> kept_env env' = kept_env env"
  unfolding client_insert_cold_status_def
  by (erule client_call_kept[rotated]) (auto simp: kept_env_def)

section \<open>Reorg detection\<close>

text \<open>
  C3. A reorg is declared exactly when the first block of the new batch is not above the tip
  of the hot chain: with a non-empty hot chain and a non-empty batch the answer is the
  comparison of the two heights; an empty hot chain or an empty batch never gives a reorg; a
  first block at the tip's own height gives one whatever its hash is, so a hash mismatch at
  that height needs no test of its own.
\<close>

theorem detectReorg_height_condition:
  "detectReorg (db\<lparr>hotBlocks := hot @ [tip]\<rparr>) (b # bs) = (height b \<le> height tip)
   \<and> detectReorg (db\<lparr>hotBlocks := []\<rparr>) blocks = False
   \<and> detectReorg db [] = False
   \<and> detectReorg (db\<lparr>hotBlocks := hot @ [tip]\<rparr>)
        (\<lparr>height = height tip, hash = x, parent = p, extras = ex\<rparr> # bs) = True"
  by (simp add: detectReorg_def)

section \<open>The common ancestor\<close>

lemma hashToHeight_has:
  "(map_of (fold (\<lambda>b al. AList.update (hash b) (height b) al) bs al0) k \<noteq> None)
     = (k \<in> hash ` set bs \<or> map_of al0 k \<noteq> None)"
  by (induction bs arbitrary: al0) (auto simp: update_conv')

lemma fold_max_pick:
  "fold (\<lambda>nb a. if P nb then max a (height nb) else a) blocks a0
     = fold max (map height (filter P blocks)) a0"
  by (induction blocks arbitrary: a0) (auto simp: max.commute)

lemma Max_above:
  fixes a :: int
  assumes "finite S"
  shows "Max (insert a S) = (if {h \<in> S. a \<le> h} = {} then a else Max {h \<in> S. a \<le> h})"
proof (cases "{h \<in> S. a \<le> h} = {}")
  case True
  then have "\<forall>h\<in>S. h \<le> a" by auto
  then have "Max (insert a S) = a"
    using assms by (intro Max_eqI) auto
  then show ?thesis using True by simp
next
  case False
  let ?T = "{h \<in> S. a \<le> h}"
  have fT: "finite ?T" using assms by simp
  have mem: "Max ?T \<in> ?T" using Max_in[OF fT False] .
  have "Max (insert a S) = Max ?T"
  proof (intro Max_eqI)
    show "finite (insert a S)" using assms by simp
    show "Max ?T \<in> insert a S" using mem by auto
    fix y assume y: "y \<in> insert a S"
    show "y \<le> Max ?T"
    proof (cases "a \<le> y \<and> y \<in> S")
      case True
      then show ?thesis using Max_ge[OF fT, of y] by simp
    next
      case False
      then have "y \<le> a" using y by auto
      then show ?thesis using mem by auto
    qed
  qed
  then show ?thesis using False by auto
qed

text \<open>
  When equal hashes mean equal heights, as on a chain, the heights of \<open>common_heights\<close> are
  those at which a block of the hot chain and a block of the new list agree in height and hash.
\<close>

lemma common_heights_same_block:
  assumes same: "\<forall>hb \<in> set (hotBlocks db). \<forall>nb \<in> set blocks.
             hash hb = hash nb \<longrightarrow> height hb = height nb"
  shows "set (common_heights db blocks) =
           {h. finalizedHeight db \<le> h
               \<and> (\<exists>hb \<in> set (hotBlocks db). \<exists>nb \<in> set blocks.
                     height hb = h \<and> height nb = h \<and> hash hb = hash nb)}"
    (is "?L = ?R")
proof (intro set_eqI iffI)
  fix h assume "h \<in> ?L"
  then obtain nb where nb: "nb \<in> set blocks" "height nb = h" "finalizedHeight db \<le> h"
      and "hash nb \<in> hash ` set (hotBlocks db)"
    unfolding common_heights_def by auto
  then obtain hb where hb: "hb \<in> set (hotBlocks db)" "hash hb = hash nb" by auto
  have "height hb = h" using same hb nb by blast
  then show "h \<in> ?R" using hb nb by blast
next
  fix h assume "h \<in> ?R"
  then obtain hb nb where "finalizedHeight db \<le> h" "hb \<in> set (hotBlocks db)" "nb \<in> set blocks"
      "height nb = h" "hash hb = hash nb"
    by blast
  then have "nb \<in> set blocks \<and> hash nb \<in> hash ` set (hotBlocks db) \<and> finalizedHeight db \<le> height nb \<and> height nb = h"
    by (metis imageI)
  then show "h \<in> ?L" unfolding common_heights_def by auto
qed

text \<open>
  C4. \<open>findCommonAncestor\<close> returns the largest height, not below \<open>finalizedHeight\<close>, of a
  block of the new list whose hash is the hash of some block of the hot chain, and
  \<open>finalizedHeight\<close> itself when there is no such block. A block "appears in both sequences
  with identical hash" when the two entries carry the same hash; its height is read from the
  entry of the new list.
\<close>

theorem findCommonAncestor_highest:
  "findCommonAncestor db blocks =
     (if common_heights db blocks = [] then finalizedHeight db
      else Max (set (common_heights db blocks)))"
proof -
  let ?P = "\<lambda>nb. hash nb \<in> hash ` set (hotBlocks db)"
  let ?S = "set (map height (filter ?P blocks))"
  have a: "findCommonAncestor db blocks = Max (insert (finalizedHeight db) ?S)"
    unfolding findCommonAncestor_def Let_def hashToHeight_has
    by (simp only: fold_max_pick fold_max_Max map_of.simps simp_thms)
  have s: "set (common_heights db blocks) = {h \<in> ?S. finalizedHeight db \<le> h}"
    by (auto simp: common_heights_def)
  have e: "(common_heights db blocks = []) = ({h \<in> ?S. finalizedHeight db \<le> h} = {})"
    using s by (metis set_empty)
  show ?thesis
    unfolding a e s by (rule Max_above) simp
qed

section \<open>The registry window\<close>

lemma pruneOldBlocks_memory:
  "pruneOldBlocks h m env = (r, m', env') \<Longrightarrow>
   m' = m\<lparr>validBlocks := filter (\<lambda>e. h - finalityDepth m \<le> fst e) (validBlocks m)\<rparr>"
  by (auto simp: pruneOldBlocks_def Let_def not_less split: if_splits prod.splits)

lemma addBlock_memory:
  assumes "addBlock h x m env = (Inr (), m', env')"
  shows "m' = m\<lparr>validBlocks := filter (\<lambda>e. h - finalityDepth m \<le> fst e)
                                     (AList.update h x (validBlocks m))\<rparr>"
  using assms
  by (auto simp: addBlock_def Let_def split: prod.splits sum.splits dest!: pruneOldBlocks_memory)

lemma addBlocks_memory:
  assumes "addBlocks (b # bs) m env = (Inr (), m', env')"
  shows "m' = m\<lparr>validBlocks :=
                  filter (\<lambda>e. fold max (map fst bs) (fst b) - finalityDepth m \<le> fst e)
                    (fold (\<lambda>b al. AList.update (fst b) (snd b) al) (b # bs) (validBlocks m))\<rparr>"
  using assms
  by (auto simp: addBlocks_def Let_def split: prod.splits sum.splits dest!: pruneOldBlocks_memory)

lemma pruneOldBlocks_nofault:
  assumes "pending_faults env = []"
  shows "\<exists>m' env'. pruneOldBlocks h m env = (Inr (), m', env') \<and> pending_faults env' = []"
  using assms
  by (simp add: pruneOldBlocks_def Let_def client_delete_valid_blocks_def client_call_nofault)

lemma addBlock_nofault:
  assumes "pending_faults env = []"
  shows "\<exists>m' env'. addBlock h x m env = (Inr (), m', env') \<and> pending_faults env' = []"
  using assms
  by (simp add: addBlock_def Let_def client_insert_valid_blocks_def client_call_nofault
        pruneOldBlocks_nofault)

lemma addBlocks_nofault:
  assumes "pending_faults env = []"
  shows "\<exists>m' env'. addBlocks blocks m env = (Inr (), m', env') \<and> pending_faults env' = []"
  using assms
  by (cases blocks)
     (simp_all add: addBlocks_def Let_def client_insert_valid_blocks_def client_call_nofault
        pruneOldBlocks_nofault)

lemma handleReorg_nofault:
  assumes "pending_faults env = []"
  shows "\<exists>m' env'. handleReorg k blocks m env = (Inr (), m', env') \<and> pending_faults env' = []"
  using assms
  by (simp add: handleReorg_def Let_def client_delete_valid_blocks_def client_call_nofault
        addBlocks_nofault)

text \<open>
  C5, as the code has it. After an \<open>addBlock\<close> or \<open>addBlocks\<close> call that returns, the registry
  holds the entries of the updated map whose height is at least \<open>maxHeight - finalityDepth\<close>,
  where \<open>maxHeight\<close> is the height (or the batch maximum) just added: exactly the entries below
  that bound are pruned, the entry at the bound itself stays, and nothing above \<open>maxHeight\<close> is
  removed. Both calls return whenever no client call fails.
\<close>

theorem registry_window_after_add:
  "(addBlock h x m env = (Inr (), m', env') \<longrightarrow>
      validBlocks m' = filter (\<lambda>e. h - finalityDepth m \<le> fst e) (AList.update h x (validBlocks m))
      \<and> (\<forall>k \<in> fst ` set (validBlocks m'). h - finalityDepth m \<le> k))
   \<and> (blocks \<noteq> [] \<and> addBlocks blocks m env = (Inr (), m', env') \<longrightarrow>
      validBlocks m' =
        filter (\<lambda>e. Max (fst ` set blocks) - finalityDepth m \<le> fst e)
          (fold (\<lambda>b al. AList.update (fst b) (snd b) al) blocks (validBlocks m))
      \<and> (\<forall>k \<in> fst ` set (validBlocks m'). Max (fst ` set blocks) - finalityDepth m \<le> k))
   \<and> (pending_faults env = [] \<longrightarrow>
        (\<exists>m1 env1. addBlock h x m env = (Inr (), m1, env1))
        \<and> (\<exists>m1 env1. addBlocks blocks m env = (Inr (), m1, env1)))"
proof (intro conjI impI)
  assume a: "addBlock h x m env = (Inr (), m', env')"
  show "validBlocks m' = filter (\<lambda>e. h - finalityDepth m \<le> fst e) (AList.update h x (validBlocks m))"
    using addBlock_memory[OF a] by simp
  then show "\<forall>k \<in> fst ` set (validBlocks m'). h - finalityDepth m \<le> k" by auto
next
  assume a: "blocks \<noteq> [] \<and> addBlocks blocks m env = (Inr (), m', env')"
  then obtain b bs where bl: "blocks = b # bs" by (cases blocks) auto
  have mx: "fold max (map fst bs) (fst b) = Max (fst ` set blocks)"
    by (simp add: fold_max_Max bl)
  show v: "validBlocks m' =
        filter (\<lambda>e. Max (fst ` set blocks) - finalityDepth m \<le> fst e)
          (fold (\<lambda>b al. AList.update (fst b) (snd b) al) blocks (validBlocks m))"
    using addBlocks_memory[of b bs m env m' env'] a unfolding bl[symmetric] mx by simp
  show "\<forall>k \<in> fst ` set (validBlocks m'). Max (fst ` set blocks) - finalityDepth m \<le> k"
    unfolding v by auto
next
  assume p: "pending_faults env = []"
  show "\<exists>m1 env1. addBlock h x m env = (Inr (), m1, env1)"
    using addBlock_nofault[OF p, of h x m] by blast
  show "\<exists>m1 env1. addBlocks blocks m env = (Inr (), m1, env1)"
    using addBlocks_nofault[OF p, of blocks m] by blast
qed

theorem registry_window_after_add_witness:
  "addBlock 9 ''0xc'' registry_5 fresh_env =
     (Inr (), registry_5\<lparr>validBlocks := [(9, ''0xc'')]\<rparr>,
      fresh_env\<lparr>valid_blocks_table := [\<lparr>vr_height = 9, vr_hash = ''0xc'', vr_processor_id = ''default''\<rparr>]\<rparr>)
   \<and> validBlocks (registry_5\<lparr>validBlocks := [(9, ''0xc'')]\<rparr>) =
       filter (\<lambda>e. 9 - finalityDepth registry_5 \<le> fst e) (AList.update 9 ''0xc'' (validBlocks registry_5))
   \<and> [(8, ''0xb''), (9, ''0xc'')] \<noteq> []
   \<and> addBlocks [(8, ''0xb''), (9, ''0xc'')] registry_5 fresh_env =
     (Inr (), registry_5\<lparr>validBlocks := [(8, ''0xb''), (9, ''0xc'')]\<rparr>,
      fresh_env\<lparr>valid_blocks_table :=
         [\<lparr>vr_height = 8, vr_hash = ''0xb'', vr_processor_id = ''default''\<rparr>,
          \<lparr>vr_height = 9, vr_hash = ''0xc'', vr_processor_id = ''default''\<rparr>]\<rparr>)
   \<and> validBlocks (registry_5\<lparr>validBlocks := [(8, ''0xb''), (9, ''0xc'')]\<rparr>) =
        filter (\<lambda>e. Max (fst ` set [(8, ''0xb''), (9, ''0xc'')]) - finalityDepth registry_5 \<le> fst e)
          (fold (\<lambda>b al. AList.update (fst b) (snd b) al) [(8, ''0xb''), (9, ''0xc'')]
             (validBlocks registry_5))
   \<and> pending_faults fresh_env = []"
proof -
  have a: "addBlock 9 ''0xc'' registry_5 fresh_env =
     (Inr (), registry_5\<lparr>validBlocks := [(9, ''0xc'')]\<rparr>,
      fresh_env\<lparr>valid_blocks_table := [\<lparr>vr_height = 9, vr_hash = ''0xc'', vr_processor_id = ''default''\<rparr>]\<rparr>)"
    by (simp add: addBlock_def pruneOldBlocks_def client_insert_valid_blocks_def
          client_delete_valid_blocks_def client_call_def registry_5_def fresh_env_def)
  have b: "[(8, ''0xb''), (9, ''0xc'')] \<noteq> [] \<and> addBlocks [(8, ''0xb''), (9, ''0xc'')] registry_5 fresh_env =
     (Inr (), registry_5\<lparr>validBlocks := [(8, ''0xb''), (9, ''0xc'')]\<rparr>,
      fresh_env\<lparr>valid_blocks_table :=
         [\<lparr>vr_height = 8, vr_hash = ''0xb'', vr_processor_id = ''default''\<rparr>,
          \<lparr>vr_height = 9, vr_hash = ''0xc'', vr_processor_id = ''default''\<rparr>]\<rparr>)"
    by (simp add: addBlocks_def pruneOldBlocks_def client_insert_valid_blocks_def
          client_delete_valid_blocks_def client_call_def registry_5_def fresh_env_def)
  have p: "pending_faults fresh_env = []" by (simp add: fresh_env_def)
  note wa = registry_window_after_add[THEN conjunct1, THEN mp, OF a, THEN conjunct1]
  note wb = registry_window_after_add[THEN conjunct2, THEN conjunct1, THEN mp, OF b, THEN conjunct1]
  show ?thesis
    by (intro conjI) (rule a wa wb b[THEN conjunct1] b[THEN conjunct2] p)+
qed

text \<open>
  The window of the specification, \<open>[maxHeight - finalityDepth + 1, maxHeight]\<close>, is not what
  the registry keeps. With finality depth 1 and block 5 in the registry, adding block 6 leaves
  block 5 in place, below \<open>6 - 1 + 1\<close>; adding block 3 leaves block 5 in place, above 3.
\<close>

theorem registry_window_counterexample:
  "addBlock 6 ''0xb'' registry_5 fresh_env =
     (Inr (), registry_5\<lparr>validBlocks := [(5, ''0xa''), (6, ''0xb'')]\<rparr>,
      fresh_env\<lparr>valid_blocks_table := [\<lparr>vr_height = 6, vr_hash = ''0xb'', vr_processor_id = ''default''\<rparr>]\<rparr>)
   \<and> \<not> (6 - finalityDepth registry_5 + 1 \<le> (5::int))
   \<and> addBlock 3 ''0xz'' registry_5 fresh_env =
     (Inr (), registry_5\<lparr>validBlocks := [(5, ''0xa''), (3, ''0xz'')]\<rparr>,
      fresh_env\<lparr>valid_blocks_table := [\<lparr>vr_height = 3, vr_hash = ''0xz'', vr_processor_id = ''default''\<rparr>]\<rparr>)
   \<and> \<not> ((5::int) \<le> 3)"
  by (simp add: addBlock_def pruneOldBlocks_def client_insert_valid_blocks_def
        client_delete_valid_blocks_def client_call_def registry_5_def fresh_env_def)

section \<open>handleReorg twice\<close>

lemma handleReorg_memory:
  assumes "handleReorg k [(h, x)] m env = (Inr (), m', env')"
  shows "m' = m\<lparr>validBlocks := filter (\<lambda>e. h - finalityDepth m \<le> fst e)
                    (AList.update h x (filter (\<lambda>e. fst e < k) (validBlocks m)))\<rparr>"
  using assms
  by (auto simp: handleReorg_def Let_def not_le split: prod.splits sum.splits
           dest!: addBlocks_memory)

lemma handleReorg_twice_memory:
  assumes "handleReorg k [(k, x)] m env = (Inr (), m1, env1)"
      and "handleReorg k [(k, x)] m1 env1 = (Inr (), m2, env2)"
  shows "m2 = m1"
proof -
  define d where "d = finalityDepth m"
  define B where "B = filter (\<lambda>e. k - d \<le> fst e) (filter (\<lambda>e. fst e < k) (validBlocks m))"
  define kept where "kept = (if 0 \<le> d then [(k, x)] else [])"
  have below: "\<forall>e \<in> set B. fst e < k" and above: "\<forall>e \<in> set B. k - d \<le> fst e"
    by (auto simp: B_def)
  have absent: "k \<notin> fst ` set B" using below by auto
  have absent0: "k \<notin> fst ` set (filter (\<lambda>e. fst e < k) (validBlocks m))" by auto
  have step: "filter (\<lambda>e. k - d \<le> fst e) (AList.update k x B) = B @ kept"
    using above by (simp add: update_absent[OF absent] kept_def filter_id_conv)
  have m1: "m1 = m\<lparr>validBlocks := B @ kept\<rparr>"
    using handleReorg_memory[OF assms(1)]
    by (simp add: update_absent[OF absent0] B_def kept_def d_def)
  have d1: "finalityDepth m1 = d" unfolding m1 by (simp add: d_def)
  have again: "filter (\<lambda>e. fst e < k) (validBlocks m1) = B"
    unfolding m1 using below by (simp add: kept_def filter_id_conv)
  have "m2 = m1\<lparr>validBlocks := B @ kept\<rparr>"
    using handleReorg_memory[OF assms(2)] unfolding d1 again step .
  then show ?thesis unfolding m1 by simp
qed

text \<open>
  C6. For every registry, every height \<open>k\<close> and every hash, when \<open>handleReorg k [(k, x)]\<close> is
  called twice in a row and both calls return, the registry object after the second call is the
  one after the first: same entries in the same order. When no client call fails, both calls
  do return.
\<close>

theorem handleReorg_idempotent:
  "(handleReorg k [(k, x)] m env = (Inr (), m1, env1)
      \<and> handleReorg k [(k, x)] m1 env1 = (Inr (), m2, env2) \<longrightarrow> m2 = m1)
   \<and> (pending_faults env = [] \<longrightarrow>
        (\<exists>ma enva envb. handleReorg k [(k, x)] m env = (Inr (), ma, enva)
                        \<and> handleReorg k [(k, x)] ma enva = (Inr (), ma, envb)))"
proof (intro conjI impI)
  assume "handleReorg k [(k, x)] m env = (Inr (), m1, env1)
      \<and> handleReorg k [(k, x)] m1 env1 = (Inr (), m2, env2)"
  then show "m2 = m1" using handleReorg_twice_memory by blast
next
  assume p: "pending_faults env = []"
  obtain ma enva where a: "handleReorg k [(k, x)] m env = (Inr (), ma, enva)"
    and pa: "pending_faults enva = []"
    using handleReorg_nofault[OF p, of k "[(k, x)]" m] by blast
  obtain mb envb where b: "handleReorg k [(k, x)] ma enva = (Inr (), mb, envb)"
    using handleReorg_nofault[OF pa, of k "[(k, x)]" ma] by blast
  have "mb = ma" using handleReorg_twice_memory[OF a b] .
  then show "\<exists>ma enva envb. handleReorg k [(k, x)] m env = (Inr (), ma, enva)
                        \<and> handleReorg k [(k, x)] ma enva = (Inr (), ma, envb)"
    using a b by blast
qed

theorem handleReorg_idempotent_witness:
  "handleReorg 6 [(6, ''0xn'')] registry_5 fresh_env =
     (Inr (), registry_5\<lparr>validBlocks := [(5, ''0xa''), (6, ''0xn'')]\<rparr>,
      fresh_env\<lparr>valid_blocks_table := [\<lparr>vr_height = 6, vr_hash = ''0xn'', vr_processor_id = ''default''\<rparr>]\<rparr>)
   \<and> handleReorg 6 [(6, ''0xn'')] (registry_5\<lparr>validBlocks := [(5, ''0xa''), (6, ''0xn'')]\<rparr>)
        (fresh_env\<lparr>valid_blocks_table := [\<lparr>vr_height = 6, vr_hash = ''0xn'', vr_processor_id = ''default''\<rparr>]\<rparr>) =
     (Inr (), registry_5\<lparr>validBlocks := [(5, ''0xa''), (6, ''0xn'')]\<rparr>,
      fresh_env\<lparr>valid_blocks_table := [\<lparr>vr_height = 6, vr_hash = ''0xn'', vr_processor_id = ''default''\<rparr>]\<rparr>)
   \<and> registry_5\<lparr>validBlocks := [(5, ''0xa''), (6, ''0xn'')]\<rparr> =
       registry_5\<lparr>validBlocks := [(5, ''0xa''), (6, ''0xn'')]\<rparr>
   \<and> pending_faults fresh_env = []"
proof -
  have a: "handleReorg 6 [(6, ''0xn'')] registry_5 fresh_env =
     (Inr (), registry_5\<lparr>validBlocks := [(5, ''0xa''), (6, ''0xn'')]\<rparr>,
      fresh_env\<lparr>valid_blocks_table := [\<lparr>vr_height = 6, vr_hash = ''0xn'', vr_processor_id = ''default''\<rparr>]\<rparr>)"
    by (simp add: handleReorg_def addBlocks_def pruneOldBlocks_def client_insert_valid_blocks_def
          client_delete_valid_blocks_def client_call_def registry_5_def fresh_env_def)
  have b: "handleReorg 6 [(6, ''0xn'')] (registry_5\<lparr>validBlocks := [(5, ''0xa''), (6, ''0xn'')]\<rparr>)
        (fresh_env\<lparr>valid_blocks_table := [\<lparr>vr_height = 6, vr_hash = ''0xn'', vr_processor_id = ''default''\<rparr>]\<rparr>) =
     (Inr (), registry_5\<lparr>validBlocks := [(5, ''0xa''), (6, ''0xn'')]\<rparr>,
      fresh_env\<lparr>valid_blocks_table := [\<lparr>vr_height = 6, vr_hash = ''0xn'', vr_processor_id = ''default''\<rparr>]\<rparr>)"
    by (simp add: handleReorg_def addBlocks_def pruneOldBlocks_def client_insert_valid_blocks_def
          client_delete_valid_blocks_def client_call_def registry_5_def fresh_env_def)
  have p: "pending_faults fresh_env = []" by (simp add: fresh_env_def)
  show ?thesis
    by (intro conjI)
       (rule a b p handleReorg_idempotent[THEN conjunct1, THEN mp, OF conjI[OF a b]])+
qed

section \<open>The live checkpoint holds height and hash only\<close>

lemma sanitized_no_bigint: "\<not> has_bigint (JArray (map sanitizeBlock bs))"
  by (induction bs) (simp_all add: sanitizeBlock_def)

lemma stringify_sanitized:
  "JSON_stringify (JArray (map sanitizeBlock bs)) = Inr (JArray (map sanitizeBlock bs))"
  using sanitized_no_bigint by (simp add: JSON_stringify_def)

text \<open>
  C7. Whatever the producer has put on the blocks of the state, \<open>saveStatus\<close> hands to the
  client one row whose \<open>hot_blocks\<close> column is the list of the objects \<open>{height, hash}\<close>, one
  per block of \<open>state.top\<close> and in its order. \<open>JSON.stringify\<close> never meets a \<open>BigInt\<close>: the
  only way the save fails is a failure of the client's insert itself, and then nothing is
  written.
\<close>

theorem saveStatus_persists_height_and_hash:
  "saveStatus st db =
     (let hot_blocks = JArray (map (\<lambda>b. JObject [(''height'', JNumber (height b)),
                                                  (''hash'', JString (hash b))]) (ds_top st));
          row = \<lparr>sr_id = processorId db, sr_height = ds_height st, sr_hash = ds_hash st,
                 sr_parent_hash = (if ds_top st = [] then []
                                   else case parent (last (ds_top st)) of None \<Rightarrow> [] | Some p \<Rightarrow> p),
                 sr_hot_blocks = hot_blocks, sr_finalized_height = finalizedHeight db\<rparr>
      in case pending_faults (client db) of
           Some e # fs \<Rightarrow> (Inl e, db\<lparr>client := (client db)\<lparr>pending_faults := fs\<rparr>\<rparr>)
         | _ \<Rightarrow> (Inr (), db\<lparr>client := (client db)
                     \<lparr>pending_faults := tl (pending_faults (client db)),
                      status_table := status_table (client db) @ [row]\<rparr>\<rparr>))"
proof -
  have s: "map sanitizeBlock (ds_top st) =
           map (\<lambda>b. JObject [(''height'', JNumber (height b)), (''hash'', JString (hash b))]) (ds_top st)"
    by (simp add: sanitizeBlock_def)
  show ?thesis
    unfolding saveStatus_def Let_def stringify_sanitized
    by (cases "client db")
       (auto simp: s client_insert_status_def client_call_def
             split: list.splits option.splits)
qed

section \<open>Retrying a chunk\<close>

lemma not_retryable_unknown_table: "\<not> isRetryable unknown_table_error"
  by (simp add: isRetryable_def unknown_table_error_def retryableCodes_def)

lemma retry_again:
  assumes "pending_faults env = Some e # fs" "isRetryable e" "a < 3"
  shows "insertChunkWithRetry a t chunk env =
           insertChunkWithRetry (Suc a) t chunk
             (env\<lparr>pending_faults := fs, slept := slept env @ [500 * int a]\<rparr>)"
  using assms
  by (subst insertChunkWithRetry.simps) (simp add: client_command_def client_call_fault)

lemma retry_throw:
  assumes "pending_faults env = Some e # fs" "\<not> isRetryable e \<or> a = 3" "a \<le> 3"
  shows "insertChunkWithRetry a t chunk env = (Inl e, env\<lparr>pending_faults := fs\<rparr>)"
  using assms
  by (subst insertChunkWithRetry.simps) (auto simp add: client_command_def client_call_fault)

lemma retry_run:
  assumes "pending_faults env = [] \<or> hd (pending_faults env) = None" "a \<le> 3"
  shows "insertChunkWithRetry a t chunk env =
           (case tables env t of
              None \<Rightarrow> (Inl unknown_table_error, env\<lparr>pending_faults := tl (pending_faults env)\<rparr>)
            | Some rows \<Rightarrow>
                (Inr (), env\<lparr>pending_faults := tl (pending_faults env),
                             tables := (tables env)(t \<mapsto> rows @ chunk)\<rparr>))"
  using assms
  by (subst insertChunkWithRetry.simps)
     (auto simp add: client_command_def client_call_run not_retryable_unknown_table
           split: option.splits)

text \<open>
  C8. The insert of one chunk, when the client's next calls fail with the transient errors
  \<open>errs\<close> (each has one of the codes \<open>EPIPE\<close>, \<open>ECONNRESET\<close>, \<open>ETIMEDOUT\<close>, \<open>ECONNREFUSED\<close>, or
  a message that contains "socket hang up") and \<open>rest\<close> is what the client does after them:
  \<^item> three or more transient failures: three calls are made, with waits of 500 ms and 1000 ms
    between them, and the third error is thrown; the chunk is not written;
  \<^item> fewer than three, and the next call is let through: the chunk is written once (or the
    error of an unknown table is thrown), after waits of 500 ms, then 1000 ms, one per failure;
  \<^item> fewer than three, and the next call fails with an error that is not transient: that error
    is thrown at once, with no further call and no further wait.
\<close>

theorem insert_retry_policy:
  assumes scr: "pending_faults env = map Some errs @ rest"
      and tr: "\<forall>e \<in> set errs. isRetryable e"
  shows
    "(3 \<le> length errs \<longrightarrow>
        insertChunkWithRetry 1 t chunk env =
          (Inl (errs ! 2),
           env\<lparr>pending_faults := drop 3 (map Some errs) @ rest, slept := slept env @ [500, 1000]\<rparr>))
     \<and> (length errs < 3 \<and> (rest = [] \<or> hd rest = None) \<longrightarrow>
        insertChunkWithRetry 1 t chunk env =
          (case tables env t of
             Some rows \<Rightarrow>
               (Inr (), env\<lparr>pending_faults := tl rest,
                            slept := slept env @ take (length errs) [500, 1000],
                            tables := (tables env)(t \<mapsto> rows @ chunk)\<rparr>)
           | None \<Rightarrow>
               (Inl unknown_table_error,
                env\<lparr>pending_faults := tl rest,
                    slept := slept env @ take (length errs) [500, 1000]\<rparr>)))
     \<and> (\<forall>e rest'. length errs < 3 \<and> rest = Some e # rest' \<and> \<not> isRetryable e \<longrightarrow>
        insertChunkWithRetry 1 t chunk env =
          (Inl e, env\<lparr>pending_faults := rest',
                      slept := slept env @ take (length errs) [500, 1000]\<rparr>))"
proof -
  consider (zero) "errs = []"
    | (one) e1 where "errs = [e1]"
    | (two) e1 e2 where "errs = [e1, e2]"
    | (more) e1 e2 e3 es where "errs = e1 # e2 # e3 # es"
    by (metis list.exhaust)
  then show ?thesis
  proof cases
    case zero
    have p: "pending_faults env = rest" using scr zero by simp
    show ?thesis
      using zero p
      by (cases env) (auto simp: retry_run retry_throw split: option.splits)
  next
    case one
    have r1: "isRetryable e1" using tr one by simp
    have p: "pending_faults env = Some e1 # rest" using scr one by simp
    show ?thesis
      using one r1
      by (auto simp: retry_again[OF p r1] retry_run retry_throw split: option.splits)
  next
    case two
    have r1: "isRetryable e1" and r2: "isRetryable e2" using tr two by simp_all
    have p: "pending_faults env = Some e1 # Some e2 # rest" using scr two by simp
    show ?thesis
      using two r1 r2
      by (auto simp: retry_again[OF p r1] retry_again[OF _ r2] retry_run retry_throw
               split: option.splits)
  next
    case more
    have r1: "isRetryable e1" and r2: "isRetryable e2" using tr more by simp_all
    have p: "pending_faults env = Some e1 # Some e2 # Some e3 # map Some es @ rest"
      using scr more by simp
    show ?thesis
      using more r1 r2
      by (auto simp: retry_again[OF p r1] retry_again[OF _ r2] retry_throw)
  qed
qed

theorem insert_retry_policy_witness:
  "insertChunkWithRetry 1 ''ethereum_hot_transfers'' [transfer_row]
       (flaky_env [Some epipe_error, Some hang_up_error]) =
     (Inr (), (flaky_env [Some epipe_error, Some hang_up_error])
                \<lparr>pending_faults := [], slept := [500, 1000],
                 tables := (\<lambda>t. None)(''ethereum_hot_transfers'' \<mapsto> [transfer_row])\<rparr>)
   \<and> insertChunkWithRetry 1 ''ethereum_hot_transfers'' [transfer_row]
       (flaky_env [Some epipe_error, Some epipe_error, Some hang_up_error, None]) =
     (Inl hang_up_error, (flaky_env [Some epipe_error, Some epipe_error, Some hang_up_error, None])
                \<lparr>pending_faults := [None], slept := [500, 1000]\<rparr>)
   \<and> insertChunkWithRetry 1 ''ethereum_hot_transfers'' [transfer_row]
       (flaky_env [Some epipe_error, Some unknown_table_error]) =
     (Inl unknown_table_error, (flaky_env [Some epipe_error, Some unknown_table_error])
                \<lparr>pending_faults := [], slept := [500]\<rparr>)"
proof -
  have r: "isRetryable epipe_error" "isRetryable hang_up_error" "\<not> isRetryable unknown_table_error"
    by (simp_all add: isRetryable_def epipe_error_def hang_up_error_def retryableCodes_def
          unknown_table_error_def)
  have a: "pending_faults (flaky_env [Some epipe_error, Some hang_up_error])
             = map Some [epipe_error, hang_up_error] @ []"
    by (simp add: flaky_env_def)
  have a': "\<forall>e \<in> set [epipe_error, hang_up_error]. isRetryable e" using r by simp
  have b: "pending_faults (flaky_env [Some epipe_error, Some epipe_error, Some hang_up_error, None])
             = map Some [epipe_error, epipe_error, hang_up_error] @ [None]"
    by (simp add: flaky_env_def)
  have b': "\<forall>e \<in> set [epipe_error, epipe_error, hang_up_error]. isRetryable e" using r by simp
  have c: "pending_faults (flaky_env [Some epipe_error, Some unknown_table_error])
             = map Some [epipe_error] @ [Some unknown_table_error]"
    by (simp add: flaky_env_def)
  have c': "\<forall>e \<in> set [epipe_error]. isRetryable e" using r by simp
  have t: "tables (flaky_env s) ''ethereum_hot_transfers'' = Some []" for s
    by (simp add: flaky_env_def fresh_env_def)
  have 1: "insertChunkWithRetry 1 ''ethereum_hot_transfers'' [transfer_row]
       (flaky_env [Some epipe_error, Some hang_up_error]) =
     (Inr (), (flaky_env [Some epipe_error, Some hang_up_error])
                \<lparr>pending_faults := [], slept := [500, 1000],
                 tables := (\<lambda>t. None)(''ethereum_hot_transfers'' \<mapsto> [transfer_row])\<rparr>)"
    using insert_retry_policy[OF a a', of "''ethereum_hot_transfers''" "[transfer_row]",
            THEN conjunct2, THEN conjunct1]
    by (simp add: t) (simp add: flaky_env_def fresh_env_def)
  have 2: "insertChunkWithRetry 1 ''ethereum_hot_transfers'' [transfer_row]
       (flaky_env [Some epipe_error, Some epipe_error, Some hang_up_error, None]) =
     (Inl hang_up_error, (flaky_env [Some epipe_error, Some epipe_error, Some hang_up_error, None])
                \<lparr>pending_faults := [None], slept := [500, 1000]\<rparr>)"
    using insert_retry_policy[OF b b', of "''ethereum_hot_transfers''" "[transfer_row]",
            THEN conjunct1]
    by simp (simp add: flaky_env_def fresh_env_def)
  have 3: "insertChunkWithRetry 1 ''ethereum_hot_transfers'' [transfer_row]
       (flaky_env [Some epipe_error, Some unknown_table_error]) =
     (Inl unknown_table_error, (flaky_env [Some epipe_error, Some unknown_table_error])
                \<lparr>pending_faults := [], slept := [500]\<rparr>)"
    using insert_retry_policy[OF c c', of "''ethereum_hot_transfers''" "[transfer_row]",
            THEN conjunct2, THEN conjunct2, rule_format, of unknown_table_error "[]"] r(3)
    by simp (simp add: flaky_env_def fresh_env_def)
  show ?thesis by (intro conjI) (rule 1 2 3)+
qed

section \<open>The migration cut-off\<close>

lemma getBlockHashForHeight_frame:
  "getBlockHashForHeight h db = (r, db') \<Longrightarrow> \<exists>env'. db' = db\<lparr>client := env'\<rparr>"
  by (auto simp: getBlockHashForHeight_def Let_def
           split: option.splits list.splits prod.splits if_splits
           intro: exI[of _ "client db"])

lemma updateColdStatus_frame:
  "updateColdStatus h x db = (r, db') \<Longrightarrow> \<exists>env'. db' = db\<lparr>client := env'\<rparr>"
  by (auto simp: updateColdStatus_def split: prod.splits)

lemma finishMigration_result:
  assumes "finishMigration cutoff acc db = (r, db')"
  shows "(\<exists>env'. db' = db\<lparr>lastMigrationHeight := cutoff, client := env'\<rparr>)
         \<and> (\<forall>res. r = Inr res \<longrightarrow>
               res = \<lparr>migrated = fst acc, cutoffHeight = cutoff, migrated_tables = snd acc\<rparr>)"
  using assms
  by (auto simp: finishMigration_def Let_def split: option.splits prod.splits if_splits sum.splits
           dest!: getBlockHashForHeight_frame updateColdStatus_frame)


lemma client_copy_upto_nofault:
  "pending_faults env = [] \<Longrightarrow> pending_faults (snd (client_copy_upto c h k env)) = []"
  by (auto simp: client_copy_upto_def client_call_nofault split: option.splits)

lemma migrateTable_nofault:
  "pending_faults env = [] \<Longrightarrow> pending_faults (snd (migrateTable db c t env)) = []"
  using client_copy_upto_nofault[of env "coldTableName db t" "hotTableName db t" c]
  by (auto simp: migrateTable_def Let_def client_query_nofault client_command_nofault
           split: option.splits prod.splits sum.splits)

lemma migrateTables_nofault:
  "pending_faults env = [] \<Longrightarrow> pending_faults (snd (migrateTables db c ts acc env)) = []"
proof (induction ts arbitrary: acc env)
  case Nil
  then show ?case by simp
next
  case (Cons t ts)
  obtain tot res where acc: "acc = (tot, res)" by (cases acc)
  obtain o1 env1 where m: "migrateTable db c t env = (o1, env1)" by (cases "migrateTable db c t env")
  have p1: "pending_faults env1 = []" using migrateTable_nofault[OF Cons.prems, of db c t] m by simp
  show ?case
    unfolding acc using Cons.IH[OF p1]
    by (cases o1) (simp_all add: m)
qed

lemma selectHashAt_nofault:
  "pending_faults env = [] \<Longrightarrow> pending_faults (snd (selectHashAt t h env)) = []"
  by (auto simp: selectHashAt_def client_query_nofault split: option.splits)

lemma getBlockHashForHeight_nofault:
  assumes "pending_faults (client db) = []"
  shows "pending_faults (client (snd (getBlockHashForHeight h db))) = []"
proof -
  have two: "pending_faults (snd (selectHashAt t2 h (snd (selectHashAt t1 h (client db))))) = []"
    for t1 t2
    by (intro selectHashAt_nofault assms)
  show ?thesis
    using assms selectHashAt_nofault[OF assms] two
    by (auto simp: getBlockHashForHeight_def Let_def
             split: option.splits list.splits prod.splits)
       (metis snd_conv)+
qed

lemma finishMigration_nofault:
  assumes "pending_faults (client db) = []"
  shows "\<exists>res db'. finishMigration c acc db = (Inr res, db')"
proof -
  let ?db2 = "db\<lparr>lastMigrationHeight := c\<rparr>"
  have p: "pending_faults (client (snd (getBlockHashForHeight c ?db2))) = []"
    by (rule getBlockHashForHeight_nofault) (simp add: assms)
  obtain h db3 where g: "getBlockHashForHeight c ?db2 = (h, db3)"
    by (cases "getBlockHashForHeight c ?db2")
  have p3: "pending_faults (client db3) = []" using p g by simp
  show ?thesis
    by (auto simp: finishMigration_def Let_def g updateColdStatus_def
                   client_insert_cold_status_def client_call_nofault p3
             split: option.splits)
qed

lemma migrateHotToCold_run:
  assumes tip: "isAtChainTip db"
      and t: "migrateableTables db = first # others"
      and q: "client_max_height (hotTableName db first) (client db) = (Inr (Some m), env1)"
      and pos: "0 < m"
      and adv: "lastMigrationHeight db < m - hotBlocksDepth db"
  shows "\<exists>r db'. migrateHotToCold db = (r, db')
           \<and> lastMigrationHeight db' = m - hotBlocksDepth db
           \<and> (\<forall>res. r = Inr res \<longrightarrow> cutoffHeight res = m - hotBlocksDepth db)
           \<and> (pending_faults env1 = [] \<longrightarrow> (\<exists>res. r = Inr res))"
proof -
  let ?c = "m - hotBlocksDepth db"
  obtain acc env2 where mt: "migrateTables db ?c (migrateableTables db) (0, []) env1 = (acc, env2)"
    by (cases "migrateTables db ?c (migrateableTables db) (0, []) env1")
  have run: "migrateHotToCold db = finishMigration ?c acc (db\<lparr>client := env2\<rparr>)"
    using tip pos adv
    by (simp add: migrateHotToCold_def t q mt[unfolded t] Let_def del: migrateTables.simps)
  obtain r db' where f: "finishMigration ?c acc (db\<lparr>client := env2\<rparr>) = (r, db')"
    by (cases "finishMigration ?c acc (db\<lparr>client := env2\<rparr>)")
  have nf: "\<exists>res. r = Inr res" if "pending_faults env1 = []"
  proof -
    have "pending_faults env2 = []"
      using migrateTables_nofault[OF that, of db ?c "migrateableTables db" "(0, [])"] mt by simp
    then have "pending_faults (client (db\<lparr>client := env2\<rparr>)) = []" by simp
    from finishMigration_nofault[OF this, of ?c acc] f show ?thesis by auto
  qed
  show ?thesis
    using finishMigration_result[OF f] nf unfolding run f by auto
qed

text \<open>
  C2, as the code has it. For every call of \<open>migrateHotToCold\<close> at the chain tip:
  \<^item> without a managed table the call changes nothing and returns \<open>{migrated: 0, cutoff: -1}\<close>;
  \<^item> when the client rejects the query for the maximum, the call returns
    \<open>{migrated: 0, cutoff: -1}\<close> for an unknown-table error and throws any other error;
  \<^item> when the query is answered: a missing first hot table, an empty one, and one whose
    largest height is \<open>0\<close> or less all give \<open>{migrated: 0, cutoff: -1}\<close> with no table touched;
    otherwise the cut-off is the largest height of the first hot table minus \<open>hotBlocksDepth\<close>;
    a cut-off that is not above \<open>lastMigrationHeight\<close> is returned with \<open>migrated: 0\<close> and no
    table touched; a larger one is recorded as \<open>lastMigrationHeight\<close> and is the \<open>cutoffHeight\<close>
    of the result whenever the call returns one.
\<close>

theorem migrateHotToCold_cutoff:
  assumes tip: "isAtChainTip db"
  shows
    "(migrateableTables db = [] \<longrightarrow> migrateHotToCold db = (Inr (noMigration (- 1)), db))
     \<and> (\<forall>first others. migrateableTables db = first # others \<longrightarrow>
          (\<forall>e fs. pending_faults (client db) = Some e # fs \<longrightarrow>
             migrateHotToCold db =
               (if isUnknownTable e then Inr (noMigration (- 1)) else Inl e,
                db\<lparr>client := (client db)\<lparr>pending_faults := fs\<rparr>\<rparr>))
          \<and> (pending_faults (client db) = [] \<or> hd (pending_faults (client db)) = None \<longrightarrow>
             (let env1 = (client db)\<lparr>pending_faults := tl (pending_faults (client db))\<rparr> in
              case tables (client db) (hotTableName db first) of
                None \<Rightarrow> migrateHotToCold db = (Inr (noMigration (- 1)), db\<lparr>client := env1\<rparr>)
              | Some rows \<Rightarrow>
                  if rows = [] \<or> Max (row_height ` set rows) \<le> 0
                  then migrateHotToCold db = (Inr (noMigration (- 1)), db\<lparr>client := env1\<rparr>)
                  else (let cutoff = Max (row_height ` set rows) - hotBlocksDepth db in
                        if cutoff \<le> lastMigrationHeight db
                        then migrateHotToCold db = (Inr (noMigration cutoff), db\<lparr>client := env1\<rparr>)
                        else (\<exists>r db'. migrateHotToCold db = (r, db')
                                \<and> lastMigrationHeight db' = cutoff
                                \<and> (\<forall>res. r = Inr res \<longrightarrow> cutoffHeight res = cutoff)
                                \<and> (pending_faults (client db) = [] \<longrightarrow> (\<exists>res. r = Inr res)))))))"
proof (intro conjI allI impI)
  assume "migrateableTables db = []"
  then show "migrateHotToCold db = (Inr (noMigration (- 1)), db)"
    using tip by (simp add: migrateHotToCold_def)
next
  fix first others e fs
  assume "migrateableTables db = first # others" "pending_faults (client db) = Some e # fs"
  then show "migrateHotToCold db =
               (if isUnknownTable e then Inr (noMigration (- 1)) else Inl e,
                db\<lparr>client := (client db)\<lparr>pending_faults := fs\<rparr>\<rparr>)"
    using tip by (simp add: migrateHotToCold_def client_max_height_fault)
next
  fix first others
  assume t: "migrateableTables db = first # others"
     and p: "pending_faults (client db) = [] \<or> hd (pending_faults (client db)) = None"
  define env1 where "env1 = (client db)\<lparr>pending_faults := tl (pending_faults (client db))\<rparr>"
  note q = client_max_height_run[OF p, of "hotTableName db first", folded env1_def]
  have last: "\<exists>r db'. migrateHotToCold db = (r, db')
                  \<and> lastMigrationHeight db' = Max (row_height ` set rows) - hotBlocksDepth db
                  \<and> (\<forall>res. r = Inr res \<longrightarrow>
                        cutoffHeight res = Max (row_height ` set rows) - hotBlocksDepth db)
                  \<and> (pending_faults (client db) = [] \<longrightarrow> (\<exists>res. r = Inr res))"
    if "tables (client db) (hotTableName db first) = Some rows" "rows \<noteq> []"
       "0 < Max (row_height ` set rows)"
       "lastMigrationHeight db < Max (row_height ` set rows) - hotBlocksDepth db" for rows
  proof -
    have q': "client_max_height (hotTableName db first) (client db)
                = (Inr (Some (Max (row_height ` set rows))), env1)"
      using that(1,2) by (simp add: q max_height_of_rows)
    from migrateHotToCold_run[OF tip t q' that(3,4)] show ?thesis
      by (auto simp: env1_def)
  qed
  show "let env1 = (client db)\<lparr>pending_faults := tl (pending_faults (client db))\<rparr> in
              case tables (client db) (hotTableName db first) of
                None \<Rightarrow> migrateHotToCold db = (Inr (noMigration (- 1)), db\<lparr>client := env1\<rparr>)
              | Some rows \<Rightarrow>
                  if rows = [] \<or> Max (row_height ` set rows) \<le> 0
                  then migrateHotToCold db = (Inr (noMigration (- 1)), db\<lparr>client := env1\<rparr>)
                  else (let cutoff = Max (row_height ` set rows) - hotBlocksDepth db in
                        if cutoff \<le> lastMigrationHeight db
                        then migrateHotToCold db = (Inr (noMigration cutoff), db\<lparr>client := env1\<rparr>)
                        else (\<exists>r db'. migrateHotToCold db = (r, db')
                                \<and> lastMigrationHeight db' = cutoff
                                \<and> (\<forall>res. r = Inr res \<longrightarrow> cutoffHeight res = cutoff)
                                \<and> (pending_faults (client db) = [] \<longrightarrow> (\<exists>res. r = Inr res))))"
  proof (cases "tables (client db) (hotTableName db first)")
    case None
    then show ?thesis
      using tip t
      by (simp add: migrateHotToCold_def q isUnknownTable_unknown_table_error env1_def Let_def)
  next
    case (Some rows)
    show ?thesis
    proof (cases "rows = [] \<or> Max (row_height ` set rows) \<le> 0")
      case True
      then show ?thesis
        using tip t Some
        by (auto simp: migrateHotToCold_def q max_height_of_rows env1_def Let_def)
    next
      case False
      show ?thesis
      proof (cases "Max (row_height ` set rows) - hotBlocksDepth db \<le> lastMigrationHeight db")
        case True
        then show ?thesis
          using tip t Some False
          by (auto simp: migrateHotToCold_def q max_height_of_rows env1_def Let_def)
      next
        case far: False
        from last[OF Some] False far show ?thesis
          using Some by (simp add: Let_def)
      qed
    qed
  qed
qed

lemmas table_names = hotTableName_def coldTableName_def

lemma tip_db_simps:
  "isAtChainTip (tip_db rows)" "migrateableTables (tip_db rows) = [''transfers'']"
  "hotBlocksDepth (tip_db rows) = 10" "lastMigrationHeight (tip_db rows) = - 1"
  "network (tip_db rows) = ''ethereum''" "pending_faults (client (tip_db rows)) = []"
  "tables (client (tip_db rows)) ''ethereum_hot_transfers'' = Some rows"
  "tables (client (tip_db rows)) ''ethereum_cold_transfers'' = Some []"
  "empty_max_null (client (tip_db rows)) = False"
  "hotBlocks (tip_db rows) = []" "validBlocks (validBlocksManager (tip_db rows)) = []"
  by (simp_all add: tip_db_def fresh_env_def)

lemma migrate_example:
  "migrateHotToCold (tip_db [old_row, new_row]) =
     (Inr \<lparr>migrated = 1, cutoffHeight = 110, migrated_tables = [(''transfers'', 1)]\<rparr>,
      (tip_db [old_row, new_row])
        \<lparr>client := (client (tip_db [old_row, new_row]))
            \<lparr>tables := (\<lambda>t. None)(''ethereum_hot_transfers'' \<mapsto> [new_row],
                                     ''ethereum_cold_transfers'' \<mapsto> [old_row])\<rparr>,
         lastMigrationHeight := 110\<rparr>)"
  by (simp add: migrateHotToCold_def tip_db_def fresh_env_def table_names client_max_height_def
        client_query_nofault client_command_nofault client_copy_upto_def client_call_nofault
        max_height_of_def old_row_def new_row_def noMigration_def migrateTable_def
        finishMigration_def getBlockHashForHeight_def getValidHashes_def selectHashAt_def
        fun_upd_twist)


theorem migrateHotToCold_cutoff_witness:
  "isAtChainTip (tip_db [old_row, new_row])
   \<and> migrateHotToCold (tip_db [old_row, new_row]) =
     (Inr \<lparr>migrated = 1, cutoffHeight = 110, migrated_tables = [(''transfers'', 1)]\<rparr>,
      (tip_db [old_row, new_row])
        \<lparr>client := (client (tip_db [old_row, new_row]))
            \<lparr>tables := (\<lambda>t. None)(''ethereum_hot_transfers'' \<mapsto> [new_row],
                                     ''ethereum_cold_transfers'' \<mapsto> [old_row])\<rparr>,
         lastMigrationHeight := 110\<rparr>)
   \<and> cutoffHeight \<lparr>migrated = 1, cutoffHeight = 110, migrated_tables = [(''transfers'', 1)]\<rparr>
       = Max (row_height ` set [old_row, new_row]) - hotBlocksDepth (tip_db [old_row, new_row])"
proof -
  let ?D = "tip_db [old_row, new_row]"
  have tip: "isAtChainTip ?D" by (simp add: tip_db_simps)
  have tabs: "migrateableTables ?D = [''transfers'']" by (simp add: tip_db_simps)
  have through: "pending_faults (client ?D) = [] \<or> hd (pending_faults (client ?D)) = None"
    by (simp add: tip_db_simps)
  note inst = migrateHotToCold_cutoff[OF tip, THEN conjunct2, rule_format, OF tabs,
                THEN conjunct2, rule_format, OF through]
  have mx: "Max (row_height ` set [old_row, new_row]) = 120"
    by (simp add: old_row_def new_row_def)
  have "\<exists>r db'. migrateHotToCold ?D = (r, db')
          \<and> lastMigrationHeight db' = Max (row_height ` set [old_row, new_row]) - hotBlocksDepth ?D
          \<and> (\<forall>res. r = Inr res \<longrightarrow>
                cutoffHeight res = Max (row_height ` set [old_row, new_row]) - hotBlocksDepth ?D)"
    using inst
    by (auto simp add: tip_db_simps table_names Let_def old_row_def new_row_def)
  then have c: "cutoffHeight \<lparr>migrated = 1, cutoffHeight = 110, migrated_tables = [(''transfers'', 1)]\<rparr>
       = Max (row_height ` set [old_row, new_row]) - hotBlocksDepth ?D"
    unfolding migrate_example by simp
  show ?thesis by (intro conjI) (rule tip migrate_example c)+
qed

text \<open>
  A first hot table that exists and holds a row, of the genesis block: the specification's
  cut-off would be \<open>0 - 10\<close>; the code treats a largest height of \<open>0\<close> as no data and
  returns the cut-off \<open>-1\<close>.
\<close>

theorem migrateHotToCold_cutoff_counterexample:
  "isAtChainTip (tip_db [genesis_row])
   \<and> tables (client (tip_db [genesis_row])) (hotTableName (tip_db [genesis_row]) ''transfers'')
        = Some [genesis_row]
   \<and> migrateHotToCold (tip_db [genesis_row]) =
        (Inr \<lparr>migrated = 0, cutoffHeight = - 1, migrated_tables = []\<rparr>, tip_db [genesis_row])
   \<and> Max (row_height ` set [genesis_row]) - hotBlocksDepth (tip_db [genesis_row]) = - 10"
  by (simp add: migrateHotToCold_def tip_db_simps table_names client_max_height_def
        client_query_nofault max_height_of_def genesis_row_def noMigration_def)

section \<open>The stale-restart reconciler\<close>

lemma latestColdLoop_nofault:
  "pending_faults env = [] \<Longrightarrow> snd (latestColdLoop db ts m env) = env"
  by (induction ts arbitrary: m)
     (auto simp: client_max_height_def client_query_nofault split: option.splits)

lemma getColdStatus_nofault:
  "pending_faults (client db) = [] \<Longrightarrow>
   getColdStatus db =
     (Inr (case filter (\<lambda>r. cr_id r = processorId db) (cold_status_table (client db)) of
             [] \<Rightarrow> None
           | r # rs \<Rightarrow> Some (cr_height (last (r # rs)), cr_hash (last (r # rs)))), client db)"
  by (simp add: getColdStatus_def client_select_cold_status_def client_call_nofault
           split: list.splits)

lemma coldCheckpoint_nofault:
  assumes "pending_faults (client db) = []"
  shows "coldCheckpoint db =
     (Inr (case filter (\<lambda>r. cr_id r = processorId db) (cold_status_table (client db)) of
             [] \<Rightarrow> (fst (getLatestColdBlockHeight db (client db)), [])
           | r # rs \<Rightarrow> (cr_height (last (r # rs)), cr_hash (last (r # rs)))), db)"
proof -
  have l: "snd (getLatestColdBlockHeight db (client db)) = client db"
    using latestColdLoop_nofault[OF assms, of db "migrateableTables db" "- 1"]
    by (simp add: getLatestColdBlockHeight_def)
  show ?thesis
    unfolding coldCheckpoint_def getColdStatus_nofault[OF assms]
    by (simp add: case_prod_beta l split: list.splits)
qed

lemma clearHotTable_nofault:
  assumes "pending_faults env = []"
  shows "clearHotTable db t env =
           env\<lparr>tables := (tables env)(hotTableName db t :=
                              map_option (\<lambda>rows. []) (tables env (hotTableName db t)))\<rparr>"
  using assms
  by (cases "tables env (hotTableName db t)")
     (auto simp: clearHotTable_def client_query_nofault client_command_nofault fun_upd_idem)

lemma clearHotTables_nofault:
  assumes "pending_faults env = []"
  shows "clearHotTables db ts env =
           env\<lparr>tables := truncated (hotTableName db ` set ts) (tables env)\<rparr>"
  using assms
proof (induction ts arbitrary: env)
  case Nil
  then show ?case by (simp add: truncated_def)
next
  case (Cons t ts)
  let ?env1 = "env\<lparr>tables := (tables env)(hotTableName db t :=
                              map_option (\<lambda>rows. []) (tables env (hotTableName db t)))\<rparr>"
  have p: "pending_faults ?env1 = []" using Cons.prems by simp
  show ?case
    unfolding clearHotTables.simps clearHotTable_nofault[OF Cons.prems] Cons.IH[OF p]
    by (auto simp: fun_eq_iff option.map_comp comp_def truncated_def)
qed

lemma hotTableName_network: "network db' = network db \<Longrightarrow> hotTableName db' = hotTableName db"
  by (simp add: hotTableName_def fun_eq_iff)

lemma coldTableName_network: "network db' = network db \<Longrightarrow> coldTableName db' = coldTableName db"
  by (simp add: coldTableName_def fun_eq_iff)

lemma clearHotTable_network:
  assumes "network db' = network db"
  shows "clearHotTable db' t env = clearHotTable db t env"
  unfolding clearHotTable_def hotTableName_network[OF assms] ..

lemma clearHotTables_network:
  "network db' = network db \<Longrightarrow> clearHotTables db' ts env = clearHotTables db ts env"
  by (induction ts arbitrary: env) (simp_all add: clearHotTable_network[of db' db])

lemma clear_nofault:
  "pending_faults env = [] \<Longrightarrow>
   clear m env =
     (Inr (), m\<lparr>validBlocks := []\<rparr>,
      env\<lparr>valid_blocks_table :=
            filter (\<lambda>r. vr_processor_id r \<noteq> vbm_processorId m) (valid_blocks_table env)\<rparr>)"
  by (simp add: clear_def client_delete_valid_blocks_def client_call_nofault)

lemma saveStatus_nofault:
  "pending_faults (client db) = [] \<Longrightarrow>
   saveStatus st db =
     (Inr (), db\<lparr>client := (client db)\<lparr>status_table := status_table (client db) @
        [\<lparr>sr_id = processorId db, sr_height = ds_height st, sr_hash = ds_hash st,
          sr_parent_hash = (case ds_top st of [] \<Rightarrow> []
                            | b # bs \<Rightarrow> (case parent (last (b # bs)) of None \<Rightarrow> [] | Some p \<Rightarrow> p)),
          sr_hot_blocks = JArray (map sanitizeBlock (ds_top st)),
          sr_finalized_height = finalizedHeight db\<rparr>]\<rparr>\<rparr>)"
  by (simp add: saveStatus_def stringify_sanitized client_insert_status_def client_call_nofault)

lemma reconciler_run:
  assumes nf: "pending_faults (client db) = []"
  shows "\<exists>coldHeight coldHash.
     coldCheckpoint db = (Inr (coldHeight, coldHash), db)
     \<and> detectAndRollbackStaleHotBlocks st db =
        (if ds_top st = [] \<and> (ds_height st \<le> coldHeight \<or> coldHeight < 0)
         then (Inr None, db)
         else (Inr (Some \<lparr>ds_height = coldHeight, ds_hash = coldHash, ds_top = [],
                          ds_finalizedHeight = Some coldHeight\<rparr>),
               db\<lparr>client := (client db)
                     \<lparr>tables := truncated (hotTableName db ` set (migrateableTables db)) (tables (client db)),
                      status_table := status_table (client db) @
                        [\<lparr>sr_id = processorId db, sr_height = coldHeight, sr_hash = coldHash,
                          sr_parent_hash = [], sr_hot_blocks = JArray [],
                          sr_finalized_height = finalizedHeight db\<rparr>],
                      valid_blocks_table :=
                        filter (\<lambda>r. vr_processor_id r \<noteq> vbm_processorId (validBlocksManager db))
                          (valid_blocks_table (client db))\<rparr>,
                   validBlocksManager := (validBlocksManager db)\<lparr>validBlocks := []\<rparr>\<rparr>))"
proof -
  obtain cp where cp: "coldCheckpoint db = (Inr cp, db)"
    using coldCheckpoint_nofault[OF nf] by blast
  obtain coldHeight coldHash where "cp = (coldHeight, coldHash)" by (cases cp)
  with cp have c: "coldCheckpoint db = (Inr (coldHeight, coldHash), db)" by simp
  let ?env1 = "(client db)\<lparr>valid_blocks_table :=
                  filter (\<lambda>r. vr_processor_id r \<noteq> vbm_processorId (validBlocksManager db))
                    (valid_blocks_table (client db))\<rparr>"
  let ?db1 = "db\<lparr>client := ?env1, validBlocksManager := (validBlocksManager db)\<lparr>validBlocks := []\<rparr>\<rparr>"
  have p1: "pending_faults ?env1 = []" using nf by simp
  have n: "clearHotTables ?db1 = clearHotTables db"
    by (intro ext clearHotTables_network) simp
  have cl: "clearAllHotTables ?db1 =
              ?db1\<lparr>client := ?env1\<lparr>tables := truncated (hotTableName db ` set (migrateableTables db)) (tables (client db))\<rparr>\<rparr>"
    unfolding clearAllHotTables_def n
    by (simp add: clearHotTables_nofault nf)
  let ?ns = "\<lparr>ds_height = coldHeight, ds_hash = coldHash, ds_top = [],
                          ds_finalizedHeight = Some coldHeight\<rparr>"
  let ?db2 = "?db1\<lparr>client := ?env1\<lparr>tables := truncated (hotTableName db ` set (migrateableTables db)) (tables (client db))\<rparr>\<rparr>"
  have p2: "pending_faults (client ?db2) = []" using nf by simp
  note sv = saveStatus_nofault[OF p2, of ?ns]
  have d: "detectAndRollbackStaleHotBlocks st db =
        (if ds_top st = [] \<and> (ds_height st \<le> coldHeight \<or> coldHeight < 0)
         then (Inr None, db)
         else (case saveStatus ?ns ?db2 of
                 (Inl err, db3) \<Rightarrow> (Inl err, db3)
               | (Inr u', db3) \<Rightarrow> (Inr (Some ?ns), db3)))"
    unfolding detectAndRollbackStaleHotBlocks_def Let_def c
    by (auto simp add: clear_nofault[OF nf] cl)
  show ?thesis
    apply (rule exI[of _ coldHeight], rule exI[of _ coldHash])
    apply (rule conjI[OF c])
    unfolding d sv
    apply (simp add: sanitizeBlock_def)
    done
qed

text \<open>
  C1, as the code has it. When no call of the client fails, the reconciler finds the cold
  checkpoint \<open>(coldHeight, coldHash)\<close> and
  \<^item> changes nothing and returns \<open>null\<close> exactly when the live checkpoint has no hot blocks
    and its height is at most \<open>coldHeight\<close>, or has no hot blocks and \<open>coldHeight\<close> is negative
    (no cold data at all);
  \<^item> in every other case empties the registry (the map, and the rows of this processor in
    the table), empties every hot table of the managed tables that exists, appends to the live
    checkpoint table a row with height \<open>coldHeight\<close>, hash \<open>coldHash\<close> and no hot blocks, and
    returns the state \<open>{height: coldHeight, hash: coldHash, top: [], finalizedHeight:
    coldHeight}\<close>. What the row's \<open>finalized_height\<close> column holds is not part of the statement.
\<close>

theorem reconciler_rolls_back_to_cold:
  assumes nf: "pending_faults (client db) = []"
  shows "\<exists>coldHeight coldHash finalized.
     coldCheckpoint db = (Inr (coldHeight, coldHash), db)
     \<and> detectAndRollbackStaleHotBlocks st db =
        (if ds_top st = [] \<and> (ds_height st \<le> coldHeight \<or> coldHeight < 0)
         then (Inr None, db)
         else (Inr (Some \<lparr>ds_height = coldHeight, ds_hash = coldHash, ds_top = [],
                          ds_finalizedHeight = Some coldHeight\<rparr>),
               db\<lparr>client := (client db)
                     \<lparr>tables := truncated (hotTableName db ` set (migrateableTables db)) (tables (client db)),
                      status_table := status_table (client db) @
                        [\<lparr>sr_id = processorId db, sr_height = coldHeight, sr_hash = coldHash,
                          sr_parent_hash = [], sr_hot_blocks = JArray [],
                          sr_finalized_height = finalized\<rparr>],
                      valid_blocks_table :=
                        filter (\<lambda>r. vr_processor_id r \<noteq> vbm_processorId (validBlocksManager db))
                          (valid_blocks_table (client db))\<rparr>,
                   validBlocksManager := (validBlocksManager db)\<lparr>validBlocks := []\<rparr>\<rparr>))"
proof -
  from reconciler_run[OF nf, of st] obtain coldHeight coldHash where
    r: "coldCheckpoint db = (Inr (coldHeight, coldHash), db)
     \<and> detectAndRollbackStaleHotBlocks st db =
        (if ds_top st = [] \<and> (ds_height st \<le> coldHeight \<or> coldHeight < 0)
         then (Inr None, db)
         else (Inr (Some \<lparr>ds_height = coldHeight, ds_hash = coldHash, ds_top = [],
                          ds_finalizedHeight = Some coldHeight\<rparr>),
               db\<lparr>client := (client db)
                     \<lparr>tables := truncated (hotTableName db ` set (migrateableTables db)) (tables (client db)),
                      status_table := status_table (client db) @
                        [\<lparr>sr_id = processorId db, sr_height = coldHeight, sr_hash = coldHash,
                          sr_parent_hash = [], sr_hot_blocks = JArray [],
                          sr_finalized_height = finalizedHeight db\<rparr>],
                      valid_blocks_table :=
                        filter (\<lambda>r. vr_processor_id r \<noteq> vbm_processorId (validBlocksManager db))
                          (valid_blocks_table (client db))\<rparr>,
                   validBlocksManager := (validBlocksManager db)\<lparr>validBlocks := []\<rparr>\<rparr>))"
    by blast
  show ?thesis
    by (rule exI[of _ coldHeight], rule exI[of _ coldHash], rule exI[of _ "finalizedHeight db"])
       (rule r)
qed

lemma stale_cold: "coldCheckpoint stale_db = (Inr (10000, ''0x2710''), stale_db)"
  by (simp add: coldCheckpoint_def getColdStatus_def client_select_cold_status_def
        client_call_nofault stale_db_def tip_db_def fresh_env_def)

theorem reconciler_rolls_back_to_cold_witness:
  "pending_faults (client stale_db) = []
   \<and> fst (detectAndRollbackStaleHotBlocks live_stale stale_db) =
       Inr (Some \<lparr>ds_height = 10000, ds_hash = ''0x2710'', ds_top = [],
                  ds_finalizedHeight = Some 10000\<rparr>)
   \<and> validBlocks (validBlocksManager (snd (detectAndRollbackStaleHotBlocks live_stale stale_db))) = []
   \<and> valid_blocks_table (client (snd (detectAndRollbackStaleHotBlocks live_stale stale_db))) =
       [\<lparr>vr_height = 77, vr_hash = ''0x4d'', vr_processor_id = ''other''\<rparr>]
   \<and> tables (client (snd (detectAndRollbackStaleHotBlocks live_stale stale_db)))
        ''ethereum_hot_transfers'' = Some []
   \<and> map (\<lambda>r. (sr_id r, sr_height r, sr_hash r, sr_hot_blocks r))
        (status_table (client (snd (detectAndRollbackStaleHotBlocks live_stale stale_db)))) =
       [(''default'', 10000, ''0x2710'', JArray [])]"
proof -
  have nf: "pending_faults (client stale_db) = []"
    by (simp add: stale_db_def tip_db_def fresh_env_def)
  from reconciler_rolls_back_to_cold[OF nf, of live_stale]
  obtain finalized where r:
    "detectAndRollbackStaleHotBlocks live_stale stale_db =
       (if ds_top live_stale = [] \<and> (ds_height live_stale \<le> 10000 \<or> (10000::int) < 0)
        then (Inr None, stale_db)
        else (Inr (Some \<lparr>ds_height = 10000, ds_hash = ''0x2710'', ds_top = [],
                         ds_finalizedHeight = Some 10000\<rparr>),
              stale_db\<lparr>client := (client stale_db)
                    \<lparr>tables := truncated (hotTableName stale_db ` set (migrateableTables stale_db))
                                 (tables (client stale_db)),
                     status_table := status_table (client stale_db) @
                       [\<lparr>sr_id = processorId stale_db, sr_height = 10000, sr_hash = ''0x2710'',
                         sr_parent_hash = [], sr_hot_blocks = JArray [],
                         sr_finalized_height = finalized\<rparr>],
                     valid_blocks_table :=
                       filter (\<lambda>r. vr_processor_id r \<noteq> vbm_processorId (validBlocksManager stale_db))
                         (valid_blocks_table (client stale_db))\<rparr>,
                  validBlocksManager := (validBlocksManager stale_db)\<lparr>validBlocks := []\<rparr>\<rparr>))"
    unfolding stale_cold by auto
  have top: "ds_top live_stale \<noteq> []" by (simp add: live_stale_def)
  show ?thesis
    unfolding r using top nf
    by (simp add: stale_db_def tip_db_def fresh_env_def truncated_def hotTableName_def)
qed

text \<open>
  No hot blocks, live height 5, no cold data (cold height \<open>-1\<close>): the live height is above the
  cold height, and yet the reconciler changes nothing.
\<close>

theorem reconciler_counterexample:
  "ds_top live_5 = []
   \<and> coldCheckpoint plain_db = (Inr (- 1, []), plain_db)
   \<and> \<not> ds_height live_5 \<le> - 1
   \<and> detectAndRollbackStaleHotBlocks live_5 plain_db = (Inr None, plain_db)"
  by (simp add: detectAndRollbackStaleHotBlocks_def coldCheckpoint_def getColdStatus_def
        client_select_cold_status_def client_call_nofault getLatestColdBlockHeight_def
        plain_db_def live_5_def tip_db_def fresh_env_def)

text \<open>
  The column the statement above leaves open. \<open>saveStatus\<close> writes \<open>this.finalizedHeight\<close>, not
  the \<open>finalizedHeight\<close> of the state it is given, and \<open>connect()\<close> sets the field to the cold
  height only after the reconciler has returned: the row the reconciler writes carries the
  finalized height the adapter had before, while the state it returns carries the cold height.
\<close>

lemma reconciler_finalized_height_column:
  assumes nf: "pending_faults (client db) = []"
      and run: "detectAndRollbackStaleHotBlocks st db = (Inr (Some ns), db')"
  shows "sr_finalized_height (last (status_table (client db'))) = finalizedHeight db
         \<and> ds_finalizedHeight ns = Some (sr_height (last (status_table (client db'))))"
proof -
  from reconciler_run[OF nf, of st] obtain coldHeight coldHash where
    r: "detectAndRollbackStaleHotBlocks st db =
        (if ds_top st = [] \<and> (ds_height st \<le> coldHeight \<or> coldHeight < 0)
         then (Inr None, db)
         else (Inr (Some \<lparr>ds_height = coldHeight, ds_hash = coldHash, ds_top = [],
                          ds_finalizedHeight = Some coldHeight\<rparr>),
               db\<lparr>client := (client db)
                     \<lparr>tables := truncated (hotTableName db ` set (migrateableTables db)) (tables (client db)),
                      status_table := status_table (client db) @
                        [\<lparr>sr_id = processorId db, sr_height = coldHeight, sr_hash = coldHash,
                          sr_parent_hash = [], sr_hot_blocks = JArray [],
                          sr_finalized_height = finalizedHeight db\<rparr>],
                      valid_blocks_table :=
                        filter (\<lambda>r. vr_processor_id r \<noteq> vbm_processorId (validBlocksManager db))
                          (valid_blocks_table (client db))\<rparr>,
                   validBlocksManager := (validBlocksManager db)\<lparr>validBlocks := []\<rparr>\<rparr>))"
    by blast
  show ?thesis
    using run unfolding r by (auto split: if_splits)
qed

lemma stale_restart_finalized_height_column:
  "map sr_finalized_height
     (status_table (client (snd (detectAndRollbackStaleHotBlocks live_stale stale_db)))) = [10040]
   \<and> map_sum id (map_option ds_finalizedHeight)
        (fst (detectAndRollbackStaleHotBlocks live_stale stale_db)) = Inr (Some (Some 10000))"
proof -
  have nf: "pending_faults (client stale_db) = []"
    by (simp add: stale_db_def tip_db_def fresh_env_def)
  from reconciler_run[OF nf, of live_stale] show ?thesis
    unfolding stale_cold
    by (auto simp: live_stale_def) (simp_all add: stale_db_def tip_db_def fresh_env_def)
qed

section \<open>A hot batch without blocks\<close>

lemma selectHashAt_kept: "selectHashAt t h env = (r, env') \<Longrightarrow> kept_env env' = kept_env env"
  by (auto simp: selectHashAt_def split: prod.splits sum.splits dest: client_query_kept)

lemma migrateTable_kept: "migrateTable db c t env = (r, env') \<Longrightarrow> kept_env env' = kept_env env"
  by (auto simp: migrateTable_def Let_def split: prod.splits sum.splits if_splits
           dest!: client_query_kept client_command_kept client_copy_upto_kept)

lemma migrateTables_kept:
  "migrateTables db c ts acc env = (r, env') \<Longrightarrow> kept_env env' = kept_env env"
proof (induction ts arbitrary: acc env)
  case Nil
  then show ?case by simp
next
  case (Cons t ts)
  obtain tot res where acc: "acc = (tot, res)" by (cases acc)
  obtain o1 env1 where m: "migrateTable db c t env = (o1, env1)" by (cases "migrateTable db c t env")
  have k1: "kept_env env1 = kept_env env" using migrateTable_kept[OF m] .
  show ?case
    using Cons.prems Cons.IH k1 unfolding acc
    by (cases o1) (auto simp: m)
qed


lemma getBlockHashForHeight_kept: "getBlockHashForHeight h db = (r, db') \<Longrightarrow> kept db' = kept db"
  by (auto simp: getBlockHashForHeight_def Let_def kept_def
           split: option.splits list.splits prod.splits if_splits
           dest!: selectHashAt_kept)

lemma updateColdStatus_kept: "updateColdStatus h x db = (r, db') \<Longrightarrow> kept db' = kept db"
  by (auto simp: updateColdStatus_def kept_def split: prod.splits
           dest!: client_insert_cold_status_kept)

lemma finishMigration_kept: "finishMigration c acc db = (r, db') \<Longrightarrow> kept db' = kept db"
proof -
  assume a: "finishMigration c acc db = (r, db')"
  obtain h db3 where g: "getBlockHashForHeight c (db\<lparr>lastMigrationHeight := c\<rparr>) = (h, db3)"
    by (cases "getBlockHashForHeight c (db\<lparr>lastMigrationHeight := c\<rparr>)")
  have k3: "kept db3 = kept db" using getBlockHashForHeight_kept[OF g] by (simp add: kept_def)
  show ?thesis
    using a k3
    by (auto simp: finishMigration_def Let_def g split: option.splits if_splits prod.splits sum.splits
             dest!: updateColdStatus_kept)
qed

lemma migrateHotToCold_kept: "migrateHotToCold db = (r, db') \<Longrightarrow> kept db' = kept db"
proof -
  assume a: "migrateHotToCold db = (r, db')"
  have fin: "finishMigration c acc (db\<lparr>client := env2\<rparr>) = (r, db') \<Longrightarrow> kept_env env2 = kept_env (client db)
       \<Longrightarrow> kept db' = kept db" for c acc env2
    by (drule finishMigration_kept) (simp add: kept_def)
  show ?thesis
    using a
    by (auto simp: migrateHotToCold_def Let_def simp del: migrateTables.simps
             split: if_splits list.splits prod.splits sum.splits option.splits
             dest!: client_max_height_kept migrateTables_kept
             intro: fin)
      (auto simp: kept_def)
qed


lemma estimateHotTableRows_kept:
  "estimateHotTableRows db = (n, env') \<Longrightarrow> kept_env env' = kept_env (client db)"
  by (auto simp: estimateHotTableRows_def split: list.splits prod.splits sum.splits
           dest!: client_query_kept)

lemma executeMigration_kept:
  assumes custom: "\<And>custom d r d'. customMigration hooks = Some custom \<Longrightarrow> custom d = (r, d')
                     \<Longrightarrow> kept d' = kept d"
      and run: "executeMigration hooks db = (r, db')"
  shows "kept db' = kept db"
  using run
  by (auto simp: executeMigration_def split: option.splits dest: custom migrateHotToCold_kept)

lemma performMigration_kept:
  assumes custom: "\<And>custom d r d'. customMigration hooks = Some custom \<Longrightarrow> custom d = (r, d')
                     \<Longrightarrow> kept d' = kept d"
      and run: "performMigration hooks db = (r, db')"
  shows "kept db' = kept db"
proof -
  obtain n env1 where e: "estimateHotTableRows db = (n, env1)"
    by (cases "estimateHotTableRows db")
  let ?db1 = "db\<lparr>client := env1\<rparr>"
  have k1: "kept ?db1 = kept db"
    using estimateHotTableRows_kept[OF e] by (simp add: kept_def)
  obtain r2 db2 where x: "executeMigration hooks ?db1 = (r2, db2)"
    by (cases "executeMigration hooks ?db1")
  have k2: "kept db2 = kept db"
    using executeMigration_kept[of hooks ?db1 r2 db2] custom x k1 by metis
  have "db' = ?db1 \<or> db' = db2 \<or> db' = db2\<lparr>blocksSinceLastMigration := 0\<rparr>"
    using run
    by (auto simp: performMigration_def e x Let_def split: sum.splits if_splits option.splits)
  then show ?thesis using k1 k2 by (auto simp: kept_def)
qed

lemma subseq_js_slice_from: "subseq (js_slice_from k xs) xs"
  by (simp add: js_slice_from_def Let_def suffix_drop suffix_imp_subseq)

lemma limit_advance_subseq: "subseq (hotBlocks (limitHotBlocks (advanceFinality info db))) (hotBlocks db)"
proof -
  have a: "subseq (hotBlocks (advanceFinality info db)) (hotBlocks db)"
    by (simp add: advanceFinality_def)
  have b: "subseq (hotBlocks (limitHotBlocks d)) (hotBlocks d)" for d
    by (simp add: limitHotBlocks_def subseq_js_slice_from)
  from b a show ?thesis by (rule subseq_order.trans)
qed

text \<open>
  C10. A \<open>transactHot\<close> call whose \<open>newBlocks\<close> is empty, whether it returns or throws, writes
  no row to the live checkpoint table, leaves the registry (object and table) as it was, and
  appends nothing to the hot chain: the chain afterwards is the old one without the blocks that
  finality and the depth limit have dropped. The \<open>customMigration\<close> hook, user code that
  receives the adapter, is assumed to leave these alone as well.
\<close>

theorem transactHot_empty_batch:
  assumes empty: "newBlocks info = []"
      and custom: "\<forall>custom d r d'. customMigration hooks = Some custom \<and> custom d = (r, d')
                     \<longrightarrow> kept d' = kept d"
      and run: "transactHot hooks cb info db = (r, db')"
  shows "status_table (client db') = status_table (client db)
         \<and> valid_blocks_table (client db') = valid_blocks_table (client db)
         \<and> validBlocksManager db' = validBlocksManager db
         \<and> hotBlocks db' = hotBlocks (limitHotBlocks (advanceFinality info db))
         \<and> subseq (hotBlocks db') (hotBlocks db)"
proof -
  let ?db3 = "limitHotBlocks (advanceFinality info db)"
  have k3: "kept ?db3 = (kept_env (client db), validBlocksManager db, hotBlocks ?db3)"
    by (simp add: kept_def limitHotBlocks_def advanceFinality_def)
  have pm: "kept d' = kept d" if "performMigration hooks d = (r, d')" for d d'
    using performMigration_kept[of hooks d r d'] custom that by blast
  have am: "kept db' = kept d" if a: "autoMigration hooks info p d = (r, db')" for p d
  proof (cases "autoMigrate d \<and> isAtChainTip d")
    case False
    then show ?thesis using a by (auto simp: autoMigration_def)
  next
    case True
    let ?d' = "d\<lparr>blocksSinceLastMigration :=
                    blocksSinceLastMigration d + int (length (newBlocks info))\<rparr>"
    have "performMigration hooks ?d' = (r, db') \<or> (r, db') = (Inr (), ?d')"
      using a True by (auto simp: autoMigration_def Let_def split: if_splits)
    then show ?thesis
    proof
      assume "performMigration hooks ?d' = (r, db')"
      from pm[OF this] show ?thesis by (simp add: kept_def)
    next
      assume "(r, db') = (Inr (), ?d')"
      then show ?thesis by (simp add: kept_def)
    qed
  qed
  have "autoMigration hooks info (finalizedHeight db) ?db3 = (r, db')"
    using run empty
    by (simp add: transactHot_def Let_def detectReorg_def saveHotStatus_def)
  from am[OF this] k3 have "kept db' = (kept_env (client db), validBlocksManager db, hotBlocks ?db3)"
    by simp
  then show ?thesis
    using limit_advance_subseq[of info db]
    by (simp add: kept_def kept_env_def)
qed

lemma due_db_batch:
  "transactHot no_hooks (\<lambda>b. Inr []) empty_batch due_db =
     (Inr (), due_db\<lparr>client := (client due_db)
                   \<lparr>tables := (\<lambda>t. None)(''ethereum_hot_transfers'' \<mapsto> [new_row],
                                            ''ethereum_cold_transfers'' \<mapsto> [old_row])\<rparr>,
                 hotBlocks := [block_10050], finalizedHeight := 10049,
                 blocksSinceLastMigration := 0, lastMigrationHeight := 110\<rparr>)"
  by (simp add: transactHot_def advanceFinality_def detectReorg_def limitHotBlocks_def
        saveHotStatus_def autoMigration_def performMigration_def askBeforeMigration_def
        executeMigration_def tellAfterMigration_def estimateHotTableRows_def
        migrateHotToCold_def due_db_def empty_batch_def no_hooks_def block_10049_def
        block_10050_def tip_db_def fresh_env_def table_names client_max_height_def
        client_query_nofault client_command_nofault client_copy_upto_def client_call_nofault
        max_height_of_def old_row_def new_row_def noMigration_def migrateTable_def
        finishMigration_def getBlockHashForHeight_def getValidHashes_def selectHashAt_def
        fun_upd_twist)

theorem transactHot_empty_batch_witness:
  "newBlocks empty_batch = []
   \<and> fst (transactHot no_hooks (\<lambda>b. Inr []) empty_batch due_db) = Inr ()
   \<and> status_table (client (snd (transactHot no_hooks (\<lambda>b. Inr []) empty_batch due_db)))
       = status_table (client due_db)
   \<and> valid_blocks_table (client (snd (transactHot no_hooks (\<lambda>b. Inr []) empty_batch due_db)))
       = valid_blocks_table (client due_db)
   \<and> validBlocksManager (snd (transactHot no_hooks (\<lambda>b. Inr []) empty_batch due_db))
       = validBlocksManager due_db
   \<and> hotBlocks (snd (transactHot no_hooks (\<lambda>b. Inr []) empty_batch due_db)) = [block_10050]
   \<and> blocksSinceLastMigration (snd (transactHot no_hooks (\<lambda>b. Inr []) empty_batch due_db)) = 0"
proof -
  have e: "newBlocks empty_batch = []" by (simp add: empty_batch_def)
  have c: "\<forall>custom d r d'. customMigration no_hooks = Some custom \<and> custom d = (r, d')
             \<longrightarrow> kept d' = kept d"
    by (simp add: no_hooks_def)
  have run: "transactHot no_hooks (\<lambda>b. Inr []) empty_batch due_db =
               (fst (transactHot no_hooks (\<lambda>b. Inr []) empty_batch due_db),
                snd (transactHot no_hooks (\<lambda>b. Inr []) empty_batch due_db))"
    by simp
  note w = transactHot_empty_batch[OF e c run]
  have r: "fst (transactHot no_hooks (\<lambda>b. Inr []) empty_batch due_db) = Inr ()"
    by (simp add: due_db_batch)
  have h: "hotBlocks (snd (transactHot no_hooks (\<lambda>b. Inr []) empty_batch due_db)) = [block_10050]"
    by (simp add: due_db_batch)
  have b: "blocksSinceLastMigration (snd (transactHot no_hooks (\<lambda>b. Inr []) empty_batch due_db)) = 0"
    by (simp add: due_db_batch)
  show ?thesis
    by (intro conjI)
       (rule e r h b w[THEN conjunct1] w[THEN conjunct2, THEN conjunct1]
             w[THEN conjunct2, THEN conjunct2, THEN conjunct1])+
qed

section \<open>A vetoed migration\<close>

lemma client_query_script:
  assumes "client_query t f env = (r, env')"
  shows "\<exists>fs. env' = env\<lparr>pending_faults := fs\<rparr>"
proof (cases "pending_faults env")
  case Nil
  then have "env' = env\<lparr>pending_faults := []\<rparr>"
    using assms by (auto simp: client_query_def client_call_def split: option.splits)
  then show ?thesis by blast
next
  case (Cons f fs)
  then have "env' = env\<lparr>pending_faults := fs\<rparr>"
    using assms by (cases f) (auto simp: client_query_def client_call_def split: option.splits)
  then show ?thesis by blast
qed

lemma estimateHotTableRows_script:
  "estimateHotTableRows db = (n, env1) \<Longrightarrow> \<exists>fs. env1 = (client db)\<lparr>pending_faults := fs\<rparr>"
proof (cases "migrateableTables db")
  case Nil
  assume "estimateHotTableRows db = (n, env1)"
  then have "env1 = (client db)\<lparr>pending_faults := pending_faults (client db)\<rparr>"
    using Nil by (simp add: estimateHotTableRows_def)
  then show ?thesis by blast
next
  case (Cons t ts)
  assume "estimateHotTableRows db = (n, env1)"
  then show ?thesis
    using Cons
    by (auto simp: estimateHotTableRows_def split: prod.splits sum.splits dest: client_query_script)
qed

lemma migrateHotToCold_counter:
  assumes "migrateHotToCold db = (r, db')"
  shows "blocksSinceLastMigration db' = blocksSinceLastMigration db"
proof -
  have fin: "blocksSinceLastMigration db' = blocksSinceLastMigration db"
    if "finishMigration c acc (db\<lparr>client := env2\<rparr>) = (r, db')" for c acc env2
    using finishMigration_result[OF that] by auto
  show ?thesis
    using assms
    by (auto simp: migrateHotToCold_def Let_def simp del: migrateTables.simps
             split: if_splits list.splits prod.splits sum.splits option.splits
             intro: fin)
qed

text \<open>
  C9. Let \<open>hotTableRows\<close> and \<open>env1\<close> be what the row estimate at the start of
  \<open>performMigration\<close> gives. When the \<open>beforeMigration\<close> hook answers \<open>false\<close>, \<open>performMigration\<close>
  returns at once: the adapter is as before but for the client's consumed script, so no row has
  moved and \<open>blocksSinceLastMigration\<close> has its value. Whenever \<open>performMigration\<close> does change
  the counter, the hook (if any) had answered \<open>true\<close>, the run returned without an error, and
  the counter is \<open>0\<close>. Seen from \<open>transactHot\<close>: when the trigger fires and the hook vetoes, the
  counter stays at its value after the batch was added, so the trigger fires again on the next
  batch. The \<open>customMigration\<close> hook is assumed not to touch the counter.
\<close>

theorem vetoed_migration_keeps_counter:
  assumes est: "estimateHotTableRows db = (hotTableRows, env1)"
      and custom: "\<forall>custom d r d'. customMigration hooks = Some custom \<and> custom d = (r, d')
                     \<longrightarrow> blocksSinceLastMigration d' = blocksSinceLastMigration d"
  shows
    "(askBeforeMigration hooks (migrationContext (db\<lparr>client := env1\<rparr>) hotTableRows) = Inr False \<longrightarrow>
        performMigration hooks db = (Inr (), db\<lparr>client := env1\<rparr>)
        \<and> (\<exists>fs. env1 = (client db)\<lparr>pending_faults := fs\<rparr>)
        \<and> blocksSinceLastMigration (db\<lparr>client := env1\<rparr>) = blocksSinceLastMigration db)
     \<and> (\<forall>r db'. performMigration hooks db = (r, db')
            \<and> blocksSinceLastMigration db' \<noteq> blocksSinceLastMigration db \<longrightarrow>
          askBeforeMigration hooks (migrationContext (db\<lparr>client := env1\<rparr>) hotTableRows) = Inr True
          \<and> r = Inr () \<and> blocksSinceLastMigration db' = 0)
     \<and> (autoMigrate db \<and> isAtChainTip db
          \<and> (if migrationOnFinality db then previousFinalizedHeight < finalizedHeight db
              else migrationInterval db \<le> blocksSinceLastMigration db + int (length (newBlocks info)))
          \<and> askBeforeMigration hooks
                (migrationContext
                   (db\<lparr>blocksSinceLastMigration :=
                          blocksSinceLastMigration db + int (length (newBlocks info)),
                       client := env1\<rparr>) hotTableRows) = Inr False \<longrightarrow>
          autoMigration hooks info previousFinalizedHeight db =
            (Inr (), db\<lparr>blocksSinceLastMigration :=
                             blocksSinceLastMigration db + int (length (newBlocks info)),
                          client := env1\<rparr>))"
proof (intro conjI allI impI)
  assume v: "askBeforeMigration hooks (migrationContext (db\<lparr>client := env1\<rparr>) hotTableRows) = Inr False"
  show "performMigration hooks db = (Inr (), db\<lparr>client := env1\<rparr>)"
    by (simp add: performMigration_def est v)
  show "\<exists>fs. env1 = (client db)\<lparr>pending_faults := fs\<rparr>"
    using estimateHotTableRows_script[OF est] .
  show "blocksSinceLastMigration (db\<lparr>client := env1\<rparr>) = blocksSinceLastMigration db"
    by simp
next
  fix r db'
  assume a: "performMigration hooks db = (r, db')
            \<and> blocksSinceLastMigration db' \<noteq> blocksSinceLastMigration db"
  let ?db1 = "db\<lparr>client := env1\<rparr>"
  obtain r2 db2 where x: "executeMigration hooks ?db1 = (r2, db2)"
    by (cases "executeMigration hooks ?db1")
  have k2: "blocksSinceLastMigration db2 = blocksSinceLastMigration db"
    using x custom migrateHotToCold_counter[of ?db1 r2 db2]
    by (auto simp: executeMigration_def split: option.splits)
  show "askBeforeMigration hooks (migrationContext ?db1 hotTableRows) = Inr True"
    using a k2
    by (auto simp: performMigration_def est x Let_def split: sum.splits if_splits option.splits)
  show "r = Inr ()"
    using a k2
    by (auto simp: performMigration_def est x Let_def split: sum.splits if_splits option.splits)
  show "blocksSinceLastMigration db' = 0"
    using a k2
    by (auto simp: performMigration_def est x Let_def split: sum.splits if_splits option.splits)
next
  let ?bumped = "db\<lparr>blocksSinceLastMigration :=
                      blocksSinceLastMigration db + int (length (newBlocks info))\<rparr>"
  assume a: "autoMigrate db \<and> isAtChainTip db
          \<and> (if migrationOnFinality db then previousFinalizedHeight < finalizedHeight db
              else migrationInterval db \<le> blocksSinceLastMigration db + int (length (newBlocks info)))
          \<and> askBeforeMigration hooks
                (migrationContext
                   (db\<lparr>blocksSinceLastMigration :=
                          blocksSinceLastMigration db + int (length (newBlocks info)),
                       client := env1\<rparr>) hotTableRows) = Inr False"
  have "estimateHotTableRows ?bumped = estimateHotTableRows db"
    by (cases "migrateableTables db") (simp_all add: estimateHotTableRows_def hotTableName_def)
  then have e: "estimateHotTableRows ?bumped = (hotTableRows, env1)"
    using est by simp
  have p: "performMigration hooks ?bumped = (Inr (), ?bumped\<lparr>client := env1\<rparr>)"
    using a by (simp add: performMigration_def e)
  show "autoMigration hooks info previousFinalizedHeight db =
            (Inr (), db\<lparr>blocksSinceLastMigration :=
                             blocksSinceLastMigration db + int (length (newBlocks info)),
                          client := env1\<rparr>)"
    using a p by (auto simp: autoMigration_def Let_def split: if_splits)
qed


lemma due_db_estimate: "estimateHotTableRows due_db = (2, client due_db)"
  by (simp add: estimateHotTableRows_def due_db_def tip_db_def fresh_env_def hotTableName_def
        client_query_nofault)

theorem vetoed_migration_keeps_counter_witness:
  "estimateHotTableRows due_db = (2, client due_db)
   \<and> askBeforeMigration veto_hooks (migrationContext (due_db\<lparr>client := client due_db\<rparr>) 2) = Inr False
   \<and> performMigration veto_hooks due_db = (Inr (), due_db\<lparr>client := client due_db\<rparr>)
   \<and> blocksSinceLastMigration (due_db\<lparr>client := client due_db\<rparr>) = 30"
proof -
  have v: "askBeforeMigration veto_hooks (migrationContext (due_db\<lparr>client := client due_db\<rparr>) 2) = Inr False"
    by (simp add: askBeforeMigration_def veto_hooks_def)
  have c: "\<forall>custom d r d'. customMigration veto_hooks = Some custom \<and> custom d = (r, d')
                     \<longrightarrow> blocksSinceLastMigration d' = blocksSinceLastMigration d"
    by (simp add: veto_hooks_def)
  note w = vetoed_migration_keeps_counter[OF due_db_estimate c, THEN conjunct1, THEN mp, OF v]
  have b: "blocksSinceLastMigration (due_db\<lparr>client := client due_db\<rparr>) = 30"
    using w by (simp add: due_db_def)
  show ?thesis
    by (intro conjI) (rule due_db_estimate v w[THEN conjunct1] b)+
qed


end
